theory Spec2Isabelle
  imports Main "HOL-Library.Word" "HOL-Library.Sublist"
begin

section \<open>Errors\<close>

text \<open>
  Every \<open>tools.LogAndPanic\<close> call and every Go runtime panic of the modelled
  functions is a constructor of \<open>error\<close>. A function that mutates shared state
  returns \<open>Inl (e, h)\<close> when it panics, where \<open>h\<close> is the state the panic
  leaves behind; a pure function returns \<open>Inl e\<close>.
\<close>

datatype error =
    UnknownModel
  | MethodAfterBootstrap
  | NotAFunction
  | SignatureMismatch
  | NoRecordSetArgument
  | NoDataForInsert
  | NoDataForUpdate
  | UnknownField
  | UnparsableExpression
  | InExpansionFailed
  | IndexOutOfRange
  | SliceBoundsOutOfRange
  | NoViewOfThisType
  | OtherError string

section \<open>Method registry (models/methods.go)\<close>

subsection \<open>Data\<close>

text \<open>
  \<open>reflect.Type\<close> of a function. Two \<open>reflect.Type\<close> values are equal exactly
  when they are the same Go type: a defined (named) function type is a type of its own,
  other than the function type literal with the same parameters and results, and a
  variadic function type is other than the one taking a slice. \<open>typeName\<close> is the
  qualified name of a defined type and empty for a type literal. The only parameter
  type the code inspects is the \<open>RecordSet\<close> interface.
\<close>

datatype goType = RecordSetType | GoType string

record funcType =
  typeName :: string
  ins :: "goType list"
  outs :: "goType list"
  isVariadic :: bool

text \<open>
  \<open>reflect.Value\<close> of a function: the identity of the function and its type. Two
  values are the same map key exactly when they are the same function.
\<close>

record reflectValue =
  funcId :: nat
  funcTy :: funcType

text \<open>The \<open>interface{}\<close> argument of \<open>DeclareMethod\<close>: a function or anything else.\<close>

datatype goValue = FuncValue reflectValue | OtherValue

text \<open>
  Pointers are addresses (\<open>nat\<close>) into explicit stores. A \<open>*methodLayer\<close> is an
  address of \<open>layers\<close>, a \<open>*methodInfo\<close> an address of \<open>methInfos\<close>, a
  \<open>*modelInfo\<close> an address of \<open>models\<close>. A Go map read of a missing key gives
  the nil pointer: \<open>None\<close>.
\<close>

record methodLayer =
  methInfo :: nat
  funcValue :: reflectValue

record methodInfo =
  name :: string
  mi :: nat
  methodType :: funcType
  topLayer :: nat
  nextLayer :: "nat \<rightharpoonup> nat"

record methodsCollection =
  cache :: "string \<rightharpoonup> nat"
  cacheByFunc :: "reflectValue \<rightharpoonup> nat"
  bootstrapped :: bool

text \<open>
  \<open>fieldInfo\<close> and \<open>modelInfo\<close> are declared outside the files at hand; the
  fields are the ones the code reads. \<open>relatedModel\<close> is a \<open>*modelInfo\<close>, nil
  for a field that is no relation. \<open>modelFields\<close> is the \<open>fields\<close>
  collection of the model, read only through its \<open>get\<close> (a record cannot name a
  field \<open>fields\<close>).
\<close>

record fieldInfo =
  json :: string
  relatedModel :: "nat option"
  required :: bool

record modelInfo =
  modelName :: string
  tableName :: string
  modelFields :: "string \<rightharpoonup> fieldInfo"
  methods :: methodsCollection

text \<open>
  The heap: the model registry (name to \<open>*modelInfo\<close>), the three stores, and the
  next free address of the two stores this file allocates in.
\<close>

record heap =
  modelRegistry :: "string \<rightharpoonup> nat"
  models :: "nat \<Rightarrow> modelInfo"
  methInfos :: "nat \<Rightarrow> methodInfo"
  freeMethInfo :: nat
  layers :: "nat \<Rightarrow> methodLayer"
  freeLayer :: nat

subsection \<open>methodsCollection\<close>

definition get :: "methodsCollection \<Rightarrow> string \<Rightarrow> nat option" where
  "get mc methodName = cache mc methodName"

text \<open>\<open>set\<close> reads \<open>methInfo.topLayer.funcValue\<close> through the two stores.\<close>

definition set' :: "heap \<Rightarrow> methodsCollection \<Rightarrow> string \<Rightarrow> nat \<Rightarrow> methodsCollection" where
  "set' h mc methodName methInfoP =
     (let top = topLayer (methInfos h methInfoP) in
      mc\<lparr>cache := (cache mc)(methodName \<mapsto> methInfoP),
         cacheByFunc := (cacheByFunc mc)(funcValue (layers h top) \<mapsto> top)\<rparr>)"

definition addLayer :: "methodsCollection \<Rightarrow> reflectValue \<Rightarrow> nat \<Rightarrow> methodsCollection" where
  "addLayer mc fnVal methLayer = mc\<lparr>cacheByFunc := (cacheByFunc mc)(fnVal \<mapsto> methLayer)\<rparr>"

definition newMethodsCollection :: methodsCollection where
  "newMethodsCollection = \<lparr>cache = Map.empty, cacheByFunc = Map.empty, bootstrapped = False\<rparr>"

subsection \<open>methodInfo\<close>

text \<open>
  \<open>addMethodLayer\<close>: a fresh layer \<open>ml\<close> is allocated, \<open>nextLayer[&ml]\<close> is set
  to the old top, the top becomes \<open>&ml\<close>, and the layer is entered in the by-function
  table of the method's model.
\<close>

definition addMethodLayer :: "heap \<Rightarrow> nat \<Rightarrow> reflectValue \<Rightarrow> heap" where
  "addMethodLayer h methInfoP val =
     (let ml = freeLayer h;
          h1 = h\<lparr>layers := (layers h)(ml := \<lparr>methInfo = methInfoP, funcValue = val\<rparr>),
                 freeLayer := Suc ml\<rparr>;
          old = methInfos h1 methInfoP;
          h2 = h1\<lparr>methInfos := (methInfos h1)(methInfoP :=
                 old\<lparr>nextLayer := (nextLayer old)(ml \<mapsto> topLayer old), topLayer := ml\<rparr>)\<rparr>;
          mp = mi (methInfos h2 methInfoP);
          mdl = models h2 mp
      in h2\<lparr>models := (models h2)(mp := mdl\<lparr>methods := addLayer (methods mdl) val ml\<rparr>)\<rparr>)"

definition getNextLayer :: "methodInfo \<Rightarrow> nat \<Rightarrow> nat option" where
  "getNextLayer methInf methLayer = nextLayer methInf methLayer"

text \<open>
  \<open>newMethodInfo\<close> panics unless the function's first parameter is \<open>RecordSet\<close>;
  otherwise it allocates the methodInfo and its first layer and returns the
  \<open>*methodInfo\<close>.
\<close>

definition newMethodInfo :: "heap \<Rightarrow> nat \<Rightarrow> string \<Rightarrow> reflectValue \<Rightarrow> (error \<times> heap) + (heap \<times> nat)" where
  "newMethodInfo h miP methodName val =
     (let funcT = funcTy val in
      if length (ins funcT) = 0 \<or> ins funcT ! 0 \<noteq> RecordSetType
      then Inl (NoRecordSetArgument, h)
      else
        let ip = freeMethInfo h;
            lp = freeLayer h
        in Inr (h\<lparr>methInfos := (methInfos h)(ip :=
                     \<lparr>name = methodName, mi = miP, methodType = funcTy val,
                      topLayer = lp, nextLayer = Map.empty\<rparr>),
                   freeMethInfo := Suc ip,
                   layers := (layers h)(lp := \<lparr>methInfo = ip, funcValue = val\<rparr>),
                   freeLayer := Suc lp\<rparr>, ip))"

subsection \<open>DeclareMethod\<close>

definition DeclareMethod :: "heap \<Rightarrow> string \<Rightarrow> string \<Rightarrow> goValue \<Rightarrow> (error \<times> heap) + heap" where
  "DeclareMethod h mName methodName fnct =
     (case modelRegistry h mName of
        None \<Rightarrow> Inl (UnknownModel, h)
      | Some miP \<Rightarrow>
          if bootstrapped (methods (models h miP)) then Inl (MethodAfterBootstrap, h)
          else
            (case fnct of
               OtherValue \<Rightarrow> Inl (NotAFunction, h)
             | FuncValue val \<Rightarrow>
                 (case get (methods (models h miP)) methodName of
                    Some methInfoP \<Rightarrow>
                      if methodType (methInfos h methInfoP) \<noteq> funcTy val
                      then Inl (SignatureMismatch, h)
                      else Inr (addMethodLayer h methInfoP val)
                  | None \<Rightarrow>
                      (case newMethodInfo h miP methodName val of
                         Inl e \<Rightarrow> Inl e
                       | Inr (h', methInfoP) \<Rightarrow>
                           Inr (h'\<lparr>models := (models h')(miP :=
                                  (models h' miP)\<lparr>methods :=
                                     set' h' (methods (models h' miP)) methodName methInfoP\<rparr>)\<rparr>)))))"

text \<open>A sequence of registrations of one method name on one model; a panic ends it.\<close>

fun declareAll :: "heap \<Rightarrow> string \<Rightarrow> string \<Rightarrow> goValue list \<Rightarrow> (error \<times> heap) + heap" where
  "declareAll h mName methodName [] = Inr h"
| "declareAll h mName methodName (f # fs) =
     (case DeclareMethod h mName methodName f of
        Inl e \<Rightarrow> Inl e
      | Inr h' \<Rightarrow> declareAll h' mName methodName fs)"

text \<open>
  The walk a caller makes: from \<open>topLayer\<close>, \<open>getNextLayer\<close> until it gives nil.
  The walk of a cyclic map would not end, so it takes fuel: \<open>None\<close> is a walk that
  has not reached nil within \<open>n\<close> layers.
\<close>

fun layerChain :: "nat \<Rightarrow> methodInfo \<Rightarrow> nat \<Rightarrow> nat list option" where
  "layerChain 0 methInf l = None"
| "layerChain (Suc n) methInf l =
     (case getNextLayer methInf l of
        None \<Rightarrow> Some [l]
      | Some l' \<Rightarrow> map_option ((#) l) (layerChain n methInf l'))"

section \<open>View registry (ir package, views)\<close>

text \<open>
  A \<open>View\<close>, with the fields the registry reads. \<open>Priority\<close> is a \<open>uint8\<close>.
  The two maps hold \<open>*View\<close>; no function here writes through such a pointer, so
  the views are held by value.
\<close>

record View =
  ID :: string
  Name :: string
  Model :: string
  Type :: string
  Priority :: "8 word"
  Arch :: string

record ViewsCollection =
  views :: "string \<rightharpoonup> View"
  orderedViews :: "string \<rightharpoonup> View list"

definition NewViewsCollection :: ViewsCollection where
  "NewViewsCollection = \<lparr>views = Map.empty, orderedViews = Map.empty\<rparr>"

text \<open>Reading a Go map of slices: a missing key is the nil slice.\<close>

definition orderedViewsOf :: "ViewsCollection \<Rightarrow> string \<Rightarrow> View list" where
  "orderedViewsOf vc m = (case orderedViews vc m of None \<Rightarrow> [] | Some vs \<Rightarrow> vs)"

text \<open>
  The loop of \<open>AddView\<close>: \<open>index\<close> is an \<open>int8\<close>, set to \<open>int8(i)\<close> at every
  element visited, and the loop breaks at the first view whose priority is at least
  the new one's. \<open>i\<close> is the position of the head of the list still to visit.
\<close>

fun addViewIndex :: "View list \<Rightarrow> View \<Rightarrow> nat \<Rightarrow> 8 word \<Rightarrow> 8 word" where
  "addViewIndex [] v i index = index"
| "addViewIndex (view # rest) v i index =
     (if Priority view \<ge> Priority v then word_of_nat i
      else addViewIndex rest v (Suc i) (word_of_nat i))"

text \<open>
  \<open>views[v.ID] = v\<close> is written before the slice expressions, which panic when the
  \<open>int8\<close> index is negative (or beyond the length).
\<close>

definition AddView :: "ViewsCollection \<Rightarrow> View \<Rightarrow> (error \<times> ViewsCollection) + ViewsCollection" where
  "AddView vc v =
     (let ov = orderedViewsOf vc (Model v);
          index = sint (addViewIndex ov v 0 0);
          vc1 = vc\<lparr>views := (views vc)(ID v \<mapsto> v)\<rparr>
      in if index < 0 \<or> int (length ov) < index then Inl (SliceBoundsOutOfRange, vc1)
         else
           let endElems = drop (nat index) ov
           in Inr (vc1\<lparr>orderedViews := (orderedViews vc1)(Model v \<mapsto>
                      (take (nat index) ov @ [v]) @ endElems)\<rparr>))"

definition GetViewById :: "ViewsCollection \<Rightarrow> string \<Rightarrow> View option" where
  "GetViewById vc vid = views vc vid"

fun firstOfType :: "View list \<Rightarrow> string \<Rightarrow> error + View" where
  "firstOfType [] viewType = Inl NoViewOfThisType"
| "firstOfType (view # rest) viewType =
     (if Type view = viewType then Inr view else firstOfType rest viewType)"

definition GetFirstViewForModel :: "ViewsCollection \<Rightarrow> string \<Rightarrow> string \<Rightarrow> error + View" where
  "GetFirstViewForModel vc m viewType = firstOfType (orderedViewsOf vc m) viewType"

section \<open>Query compiler (models/queries.go)\<close>

subsection \<open>Data\<close>

text \<open>An \<open>interface{}\<close> value passed to the driver; \<open>SQLParams\<close> is a list of them.\<close>

datatype sqlValue =
    IntValue int
  | StringValue string
  | BoolValue bool
  | NilValue
  | SliceValue "sqlValue list"

text \<open>
  \<open>Condition\<close> and \<open>condValue\<close> are declared outside the files at hand; the
  fields are the ones the compiler reads: \<open>c.params\<close>, and of a node its field path
  \<open>exprs\<close>, \<open>operator\<close> (a \<open>DomainOperator\<close>, a string), \<open>arg\<close>, the nested
  \<open>cond\<close>, and the tags \<open>isNot\<close>, \<open>isOr\<close>, \<open>isCond\<close>.
\<close>

datatype Condition = Condition (params: "condValue list")
and condValue =
  CondValue (exprs: "string list") (operator: string) (arg: sqlValue) (cond: Condition)
    (isNot: bool) (isOr: bool) (isCond: bool)

text \<open>
  \<open>RecordSet\<close>: only its \<open>mi\<close> field (a \<open>*modelInfo\<close>) is read, here \<open>rsMi\<close>.
  The condition of a \<open>Query\<close> is its field \<open>cond\<close>, here \<open>qCond\<close>; its
  \<open>distinct\<close> flag is \<open>distinct'\<close>.
\<close>

record RecordSet =
  rsMi :: nat

record Query =
  recordSet :: RecordSet
  qCond :: Condition
  related :: "string list"
  limit :: int
  offset :: int
  groups :: "string list"
  orders :: "string list"
  distinct' :: bool

text \<open>
  \<open>tableJoin\<close> (declared outside the files at hand), with the fields
  \<open>generateTableJoins\<close> fills; \<open>otherTable\<close> is a \<open>*tableJoin\<close>, nil for the
  query's own table. Its \<open>tableName\<close> field is \<open>joinTableName\<close> here, its
  \<open>alias\<close> field \<open>joinAlias\<close>.
\<close>

datatype tableJoin =
  TableJoin (joinTableName: string) (joined: bool) (innerJoin: bool) (field: string)
    (otherTable: "tableJoin option") (otherField: string) (joinAlias: string)

text \<open>
  What the compiler takes from outside the files at hand:
  \<^item> the database adapter \<open>adapters[db.DriverName()]\<close>, of which it calls
    \<open>operatorSQL\<close> and \<open>quoteTableName\<close>;
  \<^item> the store of \<open>modelInfo\<close> objects that \<open>*modelInfo\<close> pointers address;
  \<^item> the constant \<open>sqlSep\<close>, the function \<open>jsonizeExpr\<close> (which may panic), the
    method \<open>tableJoin.sqlString\<close>;
  \<^item> \<open>sqlx.In\<close> of the sqlx library where some argument is a slice.
\<close>

record dbAdapter =
  operatorSQL :: "string \<Rightarrow> sqlValue \<Rightarrow> string \<times> sqlValue"
  quoteTableName :: "string \<Rightarrow> string"

record env =
  adapter :: dbAdapter
  modelStore :: "nat \<Rightarrow> modelInfo"
  sqlSep :: string
  jsonizeExpr :: "nat \<Rightarrow> string list \<Rightarrow> error + string list"
  sqlString :: "tableJoin \<Rightarrow> string"
  sqlxInSlices :: "string \<Rightarrow> sqlValue list \<Rightarrow> error + (string \<times> sqlValue list)"

subsection \<open>Library functions\<close>

text \<open>\<open>strings.Join\<close> and \<open>strings.Repeat\<close> (with a count that is not negative).\<close>

fun Join :: "string list \<Rightarrow> string \<Rightarrow> string" where
  "Join [] sep = []"
| "Join [x] sep = x"
| "Join (x # y # ys) sep = x @ sep @ Join (y # ys) sep"

definition Repeat :: "string \<Rightarrow> nat \<Rightarrow> string" where
  "Repeat s n = concat (replicate n s)"

fun isSlice :: "sqlValue \<Rightarrow> bool" where
  "isSlice (SliceValue vs) = True"
| "isSlice v = False"

text \<open>
  \<open>sqlx.In\<close> returns the query and the arguments as they are when no argument is a
  slice; what it does with a slice is the parameter \<open>sqlxInSlices\<close>.
\<close>

definition sqlxIn :: "env \<Rightarrow> string \<Rightarrow> sqlValue list \<Rightarrow> error + (string \<times> sqlValue list)" where
  "sqlxIn e query args =
     (if list_ex isSlice args then sqlxInSlices e query args else Inr (query, args))"

text \<open>\<open>fieldsCollection.get\<close>: the lookup of a field by name.\<close>

definition fieldsGet :: "modelInfo \<Rightarrow> string \<Rightarrow> fieldInfo option" where
  "fieldsGet m fname = modelFields m fname"

text \<open>
  Modelled from the spec: \<open>Condition.IsEmpty\<close> is not in the files at hand. The spec
  gives \<open>isEmpty()\<close> as true iff the condition has no nodes.
\<close>

definition IsEmpty :: "Condition \<Rightarrow> bool" where
  "IsEmpty c = (length (params c) = 0)"

subsection \<open>SQLParams\<close>

definition Extend :: "sqlValue list \<Rightarrow> sqlValue list \<Rightarrow> sqlValue list" where
  "Extend p p2 = p @ p2"

subsection \<open>Joins\<close>

text \<open>
  The loop of \<open>generateTableJoins\<close> over the path: \<open>i\<close> is the index of the head of
  the segments still to visit, \<open>exprsLen\<close> the length of the whole path, and
  \<open>curMI\<close>, \<open>curTJ\<close>, \<open>als\<close> (the alias so far) and \<open>joins\<close> are the
  loop's variables. An unknown field panics; a field that is no relation, or the last
  segment, breaks out of the loop.
\<close>

fun joinsLoop :: "env \<Rightarrow> nat \<Rightarrow> nat \<Rightarrow> string list \<Rightarrow> nat \<Rightarrow> tableJoin \<Rightarrow> string \<Rightarrow>
    tableJoin list \<Rightarrow> error + tableJoin list" where
  "joinsLoop e exprsLen i [] curMI curTJ als joins = Inr joins"
| "joinsLoop e exprsLen i (expr # rest) curMI curTJ als joins =
     (case fieldsGet (modelStore e curMI) expr of
        None \<Rightarrow> Inl UnparsableExpression
      | Some fi \<Rightarrow>
          (case relatedModel fi of
             None \<Rightarrow> Inr joins
           | Some rm \<Rightarrow>
               if int i = int exprsLen - 1 then Inr joins
               else
                 let innerJ = (if required fi then True else False);
                     linkedTableName = quoteTableName (adapter e) (tableName (modelStore e rm));
                     als' = als @ sqlSep e @ tableName (modelStore e rm);
                     nextTJ = TableJoin linkedTableName True innerJ ''id'' (Some curTJ) expr
                                (quoteTableName (adapter e) als')
                 in joinsLoop e exprsLen (Suc i) rest rm nextTJ als' (joins @ [nextTJ])))"

text \<open>
  \<open>currentTJ\<close> is the join node of the query's own table, the first element of
  every list \<open>generateTableJoins\<close> returns.
\<close>

definition currentTJ :: "env \<Rightarrow> Query \<Rightarrow> tableJoin" where
  "currentTJ e q =
     (let currentTableName = quoteTableName (adapter e) (tableName (modelStore e (rsMi (recordSet q))))
      in TableJoin currentTableName False False [] None [] currentTableName)"

definition generateTableJoins :: "env \<Rightarrow> Query \<Rightarrow> string list \<Rightarrow> error + tableJoin list" where
  "generateTableJoins e q fieldExprs =
     (let curMI = rsMi (recordSet q)
      in joinsLoop e (length fieldExprs) 0 fieldExprs curMI (currentTJ e q)
           (tableName (modelStore e curMI)) [currentTJ e q])"

text \<open>
  \<open>joinedFieldExpression\<close>: \<open>withAlias\<close> is the variadic argument. \<open>joins\<close> is
  never empty; \<open>exprs[num-1]\<close> panics when the index is out of range.
\<close>

definition joinedFieldExpression :: "env \<Rightarrow> Query \<Rightarrow> string list \<Rightarrow> bool list \<Rightarrow> error + string" where
  "joinedFieldExpression e q xs withAlias =
     (case generateTableJoins e q xs of
        Inl err \<Rightarrow> Inl err
      | Inr joins \<Rightarrow>
          let num = length joins in
          if num = 0 \<or> length xs \<le> num - 1 then Inl IndexOutOfRange
          else if length withAlias > 0 \<and> withAlias ! 0
          then Inr (joinAlias (joins ! (num - 1)) @ ''.'' @ xs ! (num - 1) @ '' AS '' @ Join xs (sqlSep e))
          else Inr (joinAlias (joins ! (num - 1)) @ ''.'' @ xs ! (num - 1)))"

text \<open>
  \<open>tablesSQL\<close>: the inner loop over the joins of one path, the outer loop over the
  paths; \<open>joinsMap\<close> holds the aliases seen and \<open>res\<close> the text so far.
\<close>

fun tablesJoinsLoop :: "env \<Rightarrow> tableJoin list \<Rightarrow> (string \<rightharpoonup> bool) \<times> string \<Rightarrow> (string \<rightharpoonup> bool) \<times> string" where
  "tablesJoinsLoop e [] st = st"
| "tablesJoinsLoop e (j # js) (joinsMap, res) =
     (if joinsMap (joinAlias j) = None
      then tablesJoinsLoop e js (joinsMap(joinAlias j \<mapsto> True), res @ sqlString e j)
      else tablesJoinsLoop e js (joinsMap, res))"

fun tablesLoop :: "env \<Rightarrow> Query \<Rightarrow> string list list \<Rightarrow> (string \<rightharpoonup> bool) \<times> string \<Rightarrow> error + string" where
  "tablesLoop e q [] st = Inr (snd st)"
| "tablesLoop e q (f # fs) st =
     (case generateTableJoins e q f of
        Inl err \<Rightarrow> Inl err
      | Inr tJoins \<Rightarrow> tablesLoop e q fs (tablesJoinsLoop e tJoins st))"

definition tablesSQL :: "env \<Rightarrow> Query \<Rightarrow> string list list \<Rightarrow> error + string" where
  "tablesSQL e q fExprs = tablesLoop e q fExprs (Map.empty, [])"

text \<open>
  The spec's deduplication, to compare \<open>tablesSQL\<close> with: of a list of joins, keep one
  join per alias, the first, in first-seen order.
\<close>

fun firstPerAlias :: "tableJoin list \<Rightarrow> tableJoin list" where
  "firstPerAlias [] = []"
| "firstPerAlias (j # js) = j # firstPerAlias (filter (\<lambda>k. joinAlias k \<noteq> joinAlias j) js)"

subsection \<open>WHERE clause\<close>

text \<open>
  \<open>conditionSQLClause\<close>, its loop over \<open>c.params\<close> (\<open>first\<close>, \<open>sql\<close> and
  \<open>args\<close> are the loop's variables) and \<open>condValueSQLClause\<close>, whose variadic
  argument is \<open>first\<close>.
\<close>

fun conditionSQLClause :: "env \<Rightarrow> Query \<Rightarrow> Condition \<Rightarrow> error + (string \<times> sqlValue list)"
and condParamsLoop :: "env \<Rightarrow> Query \<Rightarrow> condValue list \<Rightarrow> bool \<Rightarrow> string \<Rightarrow> sqlValue list \<Rightarrow>
    error + (string \<times> sqlValue list)"
and condValueSQLClause :: "env \<Rightarrow> Query \<Rightarrow> condValue \<Rightarrow> bool list \<Rightarrow> error + (string \<times> sqlValue list)"
where
  "conditionSQLClause e q (Condition ps) =
     (if IsEmpty (Condition ps) then Inr ([], [])
      else condParamsLoop e q ps True [] [])"
| "condParamsLoop e q [] first sql args = Inr (sql, args)"
| "condParamsLoop e q (val # vals) first sql args =
     (case condValueSQLClause e q val [first] of
        Inl err \<Rightarrow> Inl err
      | Inr (vSQL, vArgs) \<Rightarrow> condParamsLoop e q vals False (sql @ vSQL) (Extend args vArgs))"
| "condValueSQLClause e q (CondValue xs opr a c isN isO isC) first =
     (let isFirst = (if length first > 0 then first ! 0 else False);
          sql0 = (if isO \<and> \<not> isFirst then ''OR '' else if \<not> isFirst then ''AND '' else []);
          sql1 = (if isN then sql0 @ ''NOT '' else sql0)
      in if isC then
           (case conditionSQLClause e q c of
              Inl err \<Rightarrow> Inl err
            | Inr (subSQL, subArgs) \<Rightarrow> Inr (sql1 @ ''('' @ subSQL @ '') '', Extend [] subArgs))
         else
           (case jsonizeExpr e (rsMi (recordSet q)) xs of
              Inl err \<Rightarrow> Inl err
            | Inr jx \<Rightarrow>
                (case joinedFieldExpression e q jx [] of
                   Inl err \<Rightarrow> Inl err
                 | Inr fld \<Rightarrow>
                     let (opSql, a') = operatorSQL (adapter e) opr a
                     in Inr (sql1 @ fld @ '' '' @ opSql @ '' '', [] @ [a']))))"

definition sqlWhereClause :: "env \<Rightarrow> Query \<Rightarrow> error + (string \<times> sqlValue list)" where
  "sqlWhereClause e q =
     (case conditionSQLClause e q (qCond q) of
        Inl err \<Rightarrow> Inl err
      | Inr (sql, args) \<Rightarrow>
          let sql' = (if sql \<noteq> [] then ''WHERE '' @ sql else sql) in
          (case sqlxIn e sql' args of
             Inl err \<Rightarrow> Inl InExpansionFailed
           | Inr r \<Rightarrow> Inr r))"

subsection \<open>INSERT and UPDATE\<close>

text \<open>
  A \<open>FieldMap\<close> is a Go map, ranged over in an order the language does not fix. It
  is given as the list of its entries in the order the \<open>range\<close> visits them, so what
  holds of every list holds of every order.

  The loop of \<open>insertQuery\<close>: \<open>cols\<close> and \<open>vals\<close> are made with the length of
  the map and written at index \<open>i\<close>.
\<close>

fun insertLoop :: "modelInfo \<Rightarrow> (string \<times> sqlValue) list \<Rightarrow> nat \<Rightarrow> string list \<Rightarrow> sqlValue list \<Rightarrow>
    error + (string list \<times> sqlValue list)" where
  "insertLoop m [] i cols vals = Inr (cols, vals)"
| "insertLoop m ((k, v) # rest) i cols vals =
     (case fieldsGet m k of
        None \<Rightarrow> Inl UnknownField
      | Some fi \<Rightarrow> insertLoop m rest (Suc i) (cols[i := json fi]) (vals[i := v]))"

definition insertQuery :: "env \<Rightarrow> Query \<Rightarrow> (string \<times> sqlValue) list \<Rightarrow> error + (string \<times> sqlValue list)" where
  "insertQuery e q data =
     (if length data = 0 then Inl NoDataForInsert
      else
        (case insertLoop (modelStore e (rsMi (recordSet q))) data 0
                (replicate (length data) []) (replicate (length data) NilValue) of
           Inl err \<Rightarrow> Inl err
         | Inr (cols, vals) \<Rightarrow>
             let tName = quoteTableName (adapter e) (tableName (modelStore e (rsMi (recordSet q))));
                 flds = Join cols '', '';
                 values = ''?'' @ Repeat '', ?'' (length vals - 1)
             in Inr (''INSERT INTO '' @ tName @ '' ('' @ flds @ '') VALUES ('' @ values @
                     '') RETURNING id'', vals)))"

fun updateLoop :: "modelInfo \<Rightarrow> (string \<times> sqlValue) list \<Rightarrow> nat \<Rightarrow> string list \<Rightarrow> sqlValue list \<Rightarrow>
    error + (string list \<times> sqlValue list)" where
  "updateLoop m [] i cols vals = Inr (cols, vals)"
| "updateLoop m ((k, v) # rest) i cols vals =
     (case fieldsGet m k of
        None \<Rightarrow> Inl UnknownField
      | Some fi \<Rightarrow> updateLoop m rest (Suc i) (cols[i := json fi @ '' = ?'']) (vals[i := v]))"

definition updateQuery :: "env \<Rightarrow> Query \<Rightarrow> (string \<times> sqlValue) list \<Rightarrow> error + (string \<times> sqlValue list)" where
  "updateQuery e q data =
     (if length data = 0 then Inl NoDataForUpdate
      else
        (case updateLoop (modelStore e (rsMi (recordSet q))) data 0
                (replicate (length data) []) (replicate (length data) NilValue) of
           Inl err \<Rightarrow> Inl err
         | Inr (cols, vals) \<Rightarrow>
             let tName = quoteTableName (adapter e) (tableName (modelStore e (rsMi (recordSet q))));
                 updates = Join cols '', ''
             in (case sqlWhereClause e q of
                   Inl err \<Rightarrow> Inl err
                 | Inr (whereSQL, args) \<Rightarrow>
                     Inr (''UPDATE '' @ tName @ '' SET '' @ updates @ '' '' @ whereSQL,
                          vals @ args))))"

text \<open>
  Modelled from the spec: \<open>NewCondition\<close> is not in the files at hand. The
  spec gives \<open>newCondition()\<close> as returning an empty condition.
\<close>

definition NewCondition :: Condition where
  "NewCondition = Condition []"

text \<open>
  \<open>newQuery(rs)\<close>, the query bound to the record set \<open>rs\<close>. The call without
  argument leaves the \<open>recordSet\<close> pointer nil; a \<open>Query\<close> here always has a
  record set, so only the bound call is given.
\<close>

definition newQuery :: "RecordSet \<Rightarrow> Query" where
  "newQuery rs =
     \<lparr>recordSet = rs, qCond = NewCondition,
      related = [], limit = 0, offset = 0, groups = [], orders = [], distinct' = False\<rparr>"

definition deleteQuery :: "env \<Rightarrow> Query \<Rightarrow> error + (string \<times> sqlValue list)" where
  "deleteQuery e q =
     (case sqlWhereClause e q of
        Inl err \<Rightarrow> Inl err
      | Inr (sql, args) \<Rightarrow>
          Inr (''DELETE FROM '' @
               quoteTableName (adapter e) (tableName (modelStore e (rsMi (recordSet q)))) @
               '' '' @ sql, args))"

text \<open>The text of a clause with its blanks removed.\<close>

definition stripSpaces :: "string \<Rightarrow> string" where
  "stripSpaces s = filter (\<lambda>c. c \<noteq> CHR '' '') s"

subsection \<open>Counting the nodes of a condition\<close>

text \<open>
  The number of leaf nodes and of sub-condition nodes of a condition tree, at every
  depth.
\<close>

fun leafNodes :: "Condition \<Rightarrow> nat"
and leafNodesOf :: "condValue list \<Rightarrow> nat"
and leafNodesIn :: "condValue \<Rightarrow> nat" where
  "leafNodes (Condition ps) = leafNodesOf ps"
| "leafNodesOf [] = 0"
| "leafNodesOf (v # vs) = leafNodesIn v + leafNodesOf vs"
| "leafNodesIn (CondValue xs opr a c isN isO isC) = (if isC then leafNodes c else 1)"

fun subCondNodes :: "Condition \<Rightarrow> nat"
and subCondNodesOf :: "condValue list \<Rightarrow> nat"
and subCondNodesIn :: "condValue \<Rightarrow> nat" where
  "subCondNodes (Condition ps) = subCondNodesOf ps"
| "subCondNodesOf [] = 0"
| "subCondNodesOf (v # vs) = subCondNodesIn v + subCondNodesOf vs"
| "subCondNodesIn (CondValue xs opr a c isN isO isC) = (if isC then 1 + subCondNodes c else 0)"

section \<open>Example data\<close>

text \<open>
  A registry with one model \<open>User\<close> (at address 0) and no method; four functions:
  \<open>fnA\<close> and \<open>fnB\<close> of the type \<open>func(RecordSet)\<close>, \<open>fnC\<close> of the type
  \<open>func(RecordSet, int)\<close>, and \<open>fnD\<close> of a defined type \<open>Handler\<close> whose
  underlying type is \<open>func(RecordSet)\<close>; the same registry after bootstrap; the
  registry after \<open>fnA\<close> has been declared as \<open>Write\<close>; and that registry after
  bootstrap.
\<close>

definition rsFuncType :: funcType where
  "rsFuncType = \<lparr>typeName = [], ins = [RecordSetType], outs = [], isVariadic = False\<rparr>"
definition rsIntFuncType :: funcType where
  "rsIntFuncType = \<lparr>typeName = [], ins = [RecordSetType, GoType ''int''], outs = [],
     isVariadic = False\<rparr>"
definition handlerFuncType :: funcType where
  "handlerFuncType = \<lparr>typeName = ''models.Handler'', ins = [RecordSetType], outs = [],
     isVariadic = False\<rparr>"
definition fnA :: reflectValue where "fnA = \<lparr>funcId = 1, funcTy = rsFuncType\<rparr>"
definition fnB :: reflectValue where "fnB = \<lparr>funcId = 2, funcTy = rsFuncType\<rparr>"
definition fnC :: reflectValue where "fnC = \<lparr>funcId = 3, funcTy = rsIntFuncType\<rparr>"
definition fnD :: reflectValue where "fnD = \<lparr>funcId = 4, funcTy = handlerFuncType\<rparr>"
definition userModel :: modelInfo where
  "userModel = \<lparr>modelName = ''User'', tableName = ''user'', modelFields = Map.empty,
     methods = newMethodsCollection\<rparr>"
definition heap0 :: heap where
  "heap0 = \<lparr>modelRegistry = [''User'' \<mapsto> 0], models = (\<lambda>p. userModel),
     methInfos = (\<lambda>p. \<lparr>name = [], mi = 0, methodType = rsFuncType, topLayer = 0, nextLayer = Map.empty\<rparr>),
     freeMethInfo = 0,
     layers = (\<lambda>p. \<lparr>methInfo = 0, funcValue = fnA\<rparr>), freeLayer = 0\<rparr>"
definition bootHeap :: heap where
  "bootHeap = heap0\<lparr>models := (\<lambda>p. userModel\<lparr>methods := newMethodsCollection\<lparr>bootstrapped := True\<rparr>\<rparr>)\<rparr>"

definition heap1 :: heap where
  "heap1 = (case DeclareMethod heap0 ''User'' ''Write'' (FuncValue fnA) of
              Inr h \<Rightarrow> h | Inl eh \<Rightarrow> snd eh)"

definition bootHeap1 :: heap where
  "bootHeap1 = heap1\<lparr>models := (models heap1)(0 :=
     (models heap1 0)\<lparr>methods := (methods (models heap1 0))\<lparr>bootstrapped := True\<rparr>\<rparr>)\<rparr>"

text \<open>
  Two views of one model, of priorities 1 and 5.
\<close>

definition viewLow :: View where
  "viewLow = \<lparr>ID = ''low'', Name = ''Low'', Model = ''m'', Type = ''form'', Priority = 1, Arch = []\<rparr>"
definition viewHigh :: View where
  "viewHigh = \<lparr>ID = ''high'', Name = ''High'', Model = ''m'', Type = ''form'', Priority = 5, Arch = []\<rparr>"

text \<open>
  A catalog of two models: \<open>tbl\<close> (at address 0) with the columns \<open>name\<close> and
  \<open>age\<close>, a required relation \<open>dept_id\<close> to the second model and an optional
  relation \<open>mentor_id\<close> to itself; and \<open>dept\<close> with the columns \<open>name\<close> and
  \<open>code\<close>. The adapter quotes a table name in double quotes and writes an operator
  as its name followed by a placeholder; field paths are given in column names.
\<close>

definition exAdapter :: dbAdapter where
  "exAdapter = \<lparr>operatorSQL = (\<lambda>opr v. (opr @ '' ?'', v)),
                 quoteTableName = (\<lambda>t. CHR 0x22 # t @ [CHR 0x22])\<rparr>"

definition tblModel :: modelInfo where
  "tblModel = \<lparr>modelName = ''Employee'', tableName = ''tbl'',
     modelFields = [''name'' \<mapsto> \<lparr>json = ''name'', relatedModel = None, required = False\<rparr>,
                    ''age'' \<mapsto> \<lparr>json = ''age'', relatedModel = None, required = False\<rparr>,
                    ''dept_id'' \<mapsto> \<lparr>json = ''dept_id'', relatedModel = Some 1, required = True\<rparr>,
                    ''mentor_id'' \<mapsto> \<lparr>json = ''mentor_id'', relatedModel = Some 0, required = False\<rparr>],
     methods = newMethodsCollection\<rparr>"

definition deptModel :: modelInfo where
  "deptModel = \<lparr>modelName = ''Department'', tableName = ''dept'',
     modelFields = [''name'' \<mapsto> \<lparr>json = ''name'', relatedModel = None, required = False\<rparr>,
                    ''code'' \<mapsto> \<lparr>json = ''code'', relatedModel = None, required = False\<rparr>],
     methods = newMethodsCollection\<rparr>"

definition exSqlString :: "tableJoin \<Rightarrow> string" where
  "exSqlString j =
     (if joined j
      then (if innerJoin j then ''INNER JOIN '' else ''LEFT JOIN '') @ joinTableName j @ '' '' @
           joinAlias j @ '' ON '' @ joinAlias j @ ''.'' @ field j @ ''='' @
           (case otherTable j of None \<Rightarrow> [] | Some t \<Rightarrow> joinAlias t) @ ''.'' @ otherField j @ '' ''
      else joinTableName j @ '' '')"

definition exEnv :: env where
  "exEnv = \<lparr>adapter = exAdapter,
            modelStore = (\<lambda>p. if p = 0 then tblModel else deptModel),
            sqlSep = ''__'',
            jsonizeExpr = (\<lambda>m xs. Inr xs),
            sqlString = exSqlString,
            sqlxInSlices = (\<lambda>query args. Inl InExpansionFailed)\<rparr>"

definition exQuery :: Query where
  "exQuery = newQuery \<lparr>rsMi = 0\<rparr>"

text \<open>
  The condition \<open>(name = 1 OR age = 2) AND NOT dept_id = 3\<close>: a sub-condition node
  holding two leaves, the second joined by OR, followed by an AND NOT leaf.
\<close>

definition exCondition :: Condition where
  "exCondition = Condition
     [CondValue [] [] NilValue
        (Condition [CondValue [''name''] ''='' (IntValue 1) NewCondition False False False,
                    CondValue [''age''] ''='' (IntValue 2) NewCondition False True False])
        False False True,
      CondValue [''dept_id''] ''='' (IntValue 3) NewCondition True False False]"

definition exCondQuery :: Query where
  "exCondQuery = exQuery\<lparr>qCond := exCondition\<rparr>"

section \<open>The layer chain\<close>

lemma layerChain_upd:
  "layerChain n mInf l = Some ps \<Longrightarrow> p \<notin> set ps \<Longrightarrow>
   layerChain n (mInf\<lparr>nextLayer := (nextLayer mInf)(p \<mapsto> t), topLayer := t'\<rparr>) l = Some ps"
proof (induction n arbitrary: l ps)
  case 0
  then show ?case by simp
next
  case (Suc n)
  show ?case
  proof (cases "nextLayer mInf l")
    case None
    with Suc.prems show ?thesis by (auto simp: getNextLayer_def)
  next
    case (Some l')
    with Suc.prems obtain qs where qs: "layerChain n mInf l' = Some qs" "ps = l # qs"
      by (auto simp: getNextLayer_def)
    with Suc.prems have "p \<noteq> l" "p \<notin> set qs" by auto
    with Suc.IH[OF qs(1)] Some qs show ?thesis by (simp add: getNextLayer_def)
  qed
qed

lemma layerChain_hd: "layerChain n mInf l = Some ps \<Longrightarrow> ps \<noteq> [] \<and> hd ps = l"
  by (cases n) (auto simp: split: option.splits)

lemma declare_step_existing:
  assumes reg: "modelRegistry h mName = Some miP"
    and get: "get (methods (models h miP)) methodName = Some ip"
    and ok: "DeclareMethod h mName methodName f = Inr h'"
    and chain: "layerChain k (methInfos h ip) (topLayer (methInfos h ip)) = Some ps"
    and fresh: "\<forall>p\<in>set ps. p < freeLayer h"
  shows "modelRegistry h' mName = Some miP"
    and "get (methods (models h' miP)) methodName = Some ip"
    and "layerChain (Suc k) (methInfos h' ip) (topLayer (methInfos h' ip)) = Some (freeLayer h # ps)"
    and "freeLayer h' = Suc (freeLayer h)"
    and "f = FuncValue (funcValue (layers h' (freeLayer h)))"
    and "\<forall>p<freeLayer h. layers h' p = layers h p"
proof -
  from ok reg get obtain val where f: "f = FuncValue val"
    and h': "h' = addMethodLayer h ip val"
    by (auto simp: DeclareMethod_def split: if_splits goValue.splits)
  show "modelRegistry h' mName = Some miP" using reg by (simp add: h' addMethodLayer_def Let_def)
  show "get (methods (models h' miP)) methodName = Some ip"
    using get by (auto simp: h' addMethodLayer_def Let_def get_def addLayer_def)
  show "freeLayer h' = Suc (freeLayer h)" by (simp add: h' addMethodLayer_def Let_def)
  show "f = FuncValue (funcValue (layers h' (freeLayer h)))"
    by (simp add: f h' addMethodLayer_def Let_def)
  show "\<forall>p<freeLayer h. layers h' p = layers h p" by (simp add: h' addMethodLayer_def Let_def)
  have notin: "freeLayer h \<notin> set ps" using fresh by auto
  have mi': "methInfos h' ip = (methInfos h ip)\<lparr>nextLayer := (nextLayer (methInfos h ip))(freeLayer h \<mapsto> topLayer (methInfos h ip)), topLayer := freeLayer h\<rparr>"
    by (simp add: h' addMethodLayer_def Let_def)
  from layerChain_upd[OF chain notin, where t = "topLayer (methInfos h ip)" and t' = "freeLayer h"]
  show "layerChain (Suc k) (methInfos h' ip) (topLayer (methInfos h' ip)) = Some (freeLayer h # ps)"
    by (simp add: mi' getNextLayer_def)
qed

lemma declare_step_new:
  assumes reg: "modelRegistry h mName = Some miP"
    and get: "get (methods (models h miP)) methodName = None"
    and ok: "DeclareMethod h mName methodName f = Inr h'"
  shows "modelRegistry h' mName = Some miP"
    and "get (methods (models h' miP)) methodName = Some (freeMethInfo h)"
    and "layerChain (Suc 0) (methInfos h' (freeMethInfo h)) (topLayer (methInfos h' (freeMethInfo h))) = Some [freeLayer h]"
    and "freeLayer h' = Suc (freeLayer h)"
    and "f = FuncValue (funcValue (layers h' (freeLayer h)))"
    and "\<forall>p<freeLayer h. layers h' p = layers h p"
  using assms
  by (auto simp: DeclareMethod_def newMethodInfo_def Let_def get_def set'_def getNextLayer_def
      split: if_splits goValue.splits)

lemma declareAll_existing:
  assumes "modelRegistry h mName = Some miP"
    and "get (methods (models h miP)) methodName = Some ip"
    and "layerChain k (methInfos h ip) (topLayer (methInfos h ip)) = Some ps"
    and "\<forall>p\<in>set ps. p < freeLayer h"
    and "declareAll h mName methodName fs = Inr h'"
  shows "get (methods (models h' miP)) methodName = Some ip \<and>
     layerChain (k + length fs) (methInfos h' ip) (topLayer (methInfos h' ip)) =
       Some (rev [freeLayer h ..< freeLayer h + length fs] @ ps) \<and>
     (\<forall>i<length fs. fs ! i = FuncValue (funcValue (layers h' (freeLayer h + i)))) \<and>
     (\<forall>p<freeLayer h. layers h' p = layers h p)"
  using assms
proof (induction fs arbitrary: h k ps)
  case Nil
  then show ?case by simp
next
  case (Cons f fs)
  from Cons.prems(5) obtain h1 where h1: "DeclareMethod h mName methodName f = Inr h1"
    and rest: "declareAll h1 mName methodName fs = Inr h'"
    by (auto split: sum.splits)
  note st = declare_step_existing[OF Cons.prems(1) Cons.prems(2) h1 Cons.prems(3) Cons.prems(4)]
  have fresh1: "\<forall>p\<in>set (freeLayer h # ps). p < freeLayer h1"
    using Cons.prems(4) st(4) by auto
  from Cons.IH[OF st(1) st(2) st(3) fresh1 rest]
  have ih1: "get (methods (models h' miP)) methodName = Some ip"
    and ih2: "layerChain (Suc k + length fs) (methInfos h' ip) (topLayer (methInfos h' ip)) =
       Some (rev [freeLayer h1 ..< freeLayer h1 + length fs] @ freeLayer h # ps)"
    and ih3: "\<forall>i<length fs. fs ! i = FuncValue (funcValue (layers h' (freeLayer h1 + i)))"
    and ih4: "\<forall>p<freeLayer h1. layers h' p = layers h1 p"
    by auto
  have upt: "[freeLayer h ..< freeLayer h + length (f # fs)] =
      freeLayer h # [freeLayer h1 ..< freeLayer h1 + length fs]"
    by (simp add: st(4) upt_rec)
  have c2: "layerChain (k + length (f # fs)) (methInfos h' ip) (topLayer (methInfos h' ip)) =
       Some (rev [freeLayer h ..< freeLayer h + length (f # fs)] @ ps)"
  proof -
    have r: "rev [freeLayer h ..< freeLayer h + length (f # fs)] @ ps =
        rev [freeLayer h1 ..< freeLayer h1 + length fs] @ freeLayer h # ps"
      by (simp only: upt rev.simps append_assoc append.simps)
    have n: "k + length (f # fs) = Suc k + length fs" by simp
    show ?thesis by (simp only: r n ih2)
  qed
  have c3: "\<forall>i<length (f # fs). (f # fs) ! i = FuncValue (funcValue (layers h' (freeLayer h + i)))"
  proof (intro allI impI)
    fix i assume i: "i < length (f # fs)"
    show "(f # fs) ! i = FuncValue (funcValue (layers h' (freeLayer h + i)))"
    proof (cases i)
      case 0
      have "layers h' (freeLayer h) = layers h1 (freeLayer h)" using ih4 st(4) by simp
      then show ?thesis using st(5) 0 by simp
    next
      case (Suc j)
      with i ih3 have "fs ! j = FuncValue (funcValue (layers h' (freeLayer h1 + j)))" by simp
      then show ?thesis using Suc st(4) by simp
    qed
  qed
  have c4: "\<forall>p<freeLayer h. layers h' p = layers h p"
    using ih4 st(4) st(6) by auto
  show ?case using ih1 c2 c3 c4 by blast
qed

lemma layerChain_nil_at_last:
  "layerChain n mInf l = Some ps \<Longrightarrow> distinct ps \<Longrightarrow> p \<in> set ps \<Longrightarrow>
   (getNextLayer mInf p = None) = (p = last ps)"
proof (induction n arbitrary: l ps)
  case 0
  then show ?case by simp
next
  case (Suc n)
  show ?case
  proof (cases "getNextLayer mInf l")
    case None
    with Suc.prems show ?thesis by auto
  next
    case (Some l')
    with Suc.prems(1) obtain qs where qs: "layerChain n mInf l' = Some qs" "ps = l # qs"
      by auto
    from layerChain_hd[OF qs(1)] have ne: "qs \<noteq> []" by simp
    from Suc.prems(2) qs have d: "distinct qs" "l \<notin> set qs" by auto
    show ?thesis
    proof (cases "p = l")
      case True
      have "last ps \<in> set qs" using ne qs(2) by simp
      with d True Some show ?thesis by auto
    next
      case False
      with Suc.prems(3) qs have "p \<in> set qs" by simp
      from Suc.IH[OF qs(1) d(1) this] show ?thesis using ne qs(2) by simp
    qed
  qed
qed

text \<open>
  C1. Let the method \<open>methodName\<close> be undeclared on a model, and let a non-empty
  sequence \<open>fs\<close> of \<open>DeclareMethod\<close> calls for it all return. Each call allocates
  one layer, at the addresses \<open>freeLayer h\<close>, \<open>freeLayer h + 1\<close>, ... in
  registration order. Then the walk from \<open>topLayer\<close> along \<open>getNextLayer\<close> ends
  within \<open>length fs\<close> steps and visits exactly these layers, each once, the last
  registered first (their functions are \<open>rev fs\<close>); \<open>getNextLayer\<close> gives nil at
  the bottom layer, the one declared first, and at no other layer of the chain.
\<close>

theorem layer_chain_of_registrations:
  assumes "modelRegistry h mName = Some miP"
    and "get (methods (models h miP)) methodName = None"
    and "fs \<noteq> []"
    and "declareAll h mName methodName fs = Inr h'"
  shows "\<exists>ip. get (methods (models h' miP)) methodName = Some ip \<and>
     (let methInf = methInfos h' ip;
          ps = rev [freeLayer h ..< freeLayer h + length fs]
      in layerChain (length fs) methInf (topLayer methInf) = Some ps \<and>
         length ps = length fs \<and> distinct ps \<and>
         map (\<lambda>p. FuncValue (funcValue (layers h' p))) ps = rev fs \<and>
         last ps = freeLayer h \<and>
         (\<forall>p\<in>set ps. (getNextLayer methInf p = None) = (p = freeLayer h)))"
proof -
  from assms(3) obtain f fs' where fs: "fs = f # fs'" by (cases fs) auto
  from assms(4) fs obtain h1 where h1: "DeclareMethod h mName methodName f = Inr h1"
    and rest: "declareAll h1 mName methodName fs' = Inr h'"
    by (auto split: sum.splits)
  note st = declare_step_new[OF assms(1) assms(2) h1]
  define ip where "ip = freeMethInfo h"
  have fresh1: "\<forall>p\<in>set [freeLayer h]. p < freeLayer h1" using st(4) by simp
  from declareAll_existing[OF st(1) st(2) st(3) fresh1 rest]
  have g: "get (methods (models h' miP)) methodName = Some ip"
    and c: "layerChain (Suc 0 + length fs') (methInfos h' ip) (topLayer (methInfos h' ip)) =
       Some (rev [freeLayer h1 ..< freeLayer h1 + length fs'] @ [freeLayer h])"
    and v: "\<forall>i<length fs'. fs' ! i = FuncValue (funcValue (layers h' (freeLayer h1 + i)))"
    and l: "\<forall>p<freeLayer h1. layers h' p = layers h1 p"
    by (auto simp: ip_def)
  define ps where "ps = rev [freeLayer h ..< freeLayer h + length fs]"
  have upt: "[freeLayer h ..< freeLayer h + length fs] =
      freeLayer h # [freeLayer h1 ..< freeLayer h1 + length fs']"
    by (simp add: fs st(4) upt_rec)
  have ps: "ps = rev [freeLayer h1 ..< freeLayer h1 + length fs'] @ [freeLayer h]"
    by (simp only: ps_def upt rev.simps)
  have n: "length fs = Suc 0 + length fs'" by (simp add: fs)
  have chain: "layerChain (length fs) (methInfos h' ip) (topLayer (methInfos h' ip)) = Some ps"
    by (simp only: n ps c)
  have len: "length ps = length fs" by (simp add: ps_def)
  have dist: "distinct ps" by (simp add: ps_def)
  have lst: "last ps = freeLayer h" by (simp add: ps)
  have vals: "\<forall>i<length fs. fs ! i = FuncValue (funcValue (layers h' (freeLayer h + i)))"
  proof (intro allI impI)
    fix i assume i: "i < length fs"
    show "fs ! i = FuncValue (funcValue (layers h' (freeLayer h + i)))"
    proof (cases i)
      case 0
      have "layers h' (freeLayer h) = layers h1 (freeLayer h)" using l st(4) by simp
      then show ?thesis using st(5) 0 fs by simp
    next
      case (Suc j)
      with i v fs have "fs' ! j = FuncValue (funcValue (layers h' (freeLayer h1 + j)))" by simp
      then show ?thesis using Suc st(4) fs by simp
    qed
  qed
  have mp: "map (\<lambda>p. FuncValue (funcValue (layers h' p))) ps = rev fs"
  proof -
    have "map (\<lambda>p. FuncValue (funcValue (layers h' p))) [freeLayer h ..< freeLayer h + length fs] = fs"
      using vals by (auto intro!: nth_equalityI)
    then show ?thesis by (simp add: ps_def rev_map[symmetric])
  qed
  have nil: "\<forall>p\<in>set ps. (getNextLayer (methInfos h' ip) p = None) = (p = freeLayer h)"
    using layerChain_nil_at_last[OF chain dist] lst by simp
  show ?thesis
    using g chain len dist mp lst nil unfolding Let_def ps_def by blast
qed

lemma declareAll_heap0:
  "\<exists>h'. declareAll heap0 ''User'' ''Write'' [FuncValue fnA, FuncValue fnB, FuncValue fnA] = Inr h'"
  by (simp add: DeclareMethod_def newMethodInfo_def addMethodLayer_def get_def set'_def addLayer_def
      heap0_def userModel_def newMethodsCollection_def fnA_def fnB_def rsFuncType_def Let_def)

theorem layer_chain_of_registrations_witness:
  "\<exists>h'. declareAll heap0 ''User'' ''Write'' [FuncValue fnA, FuncValue fnB, FuncValue fnA] = Inr h' \<and>
     (\<exists>ip. get (methods (models h' 0)) ''Write'' = Some ip \<and>
        layerChain 3 (methInfos h' ip) (topLayer (methInfos h' ip)) = Some [2, 1, 0] \<and>
        map (\<lambda>p. FuncValue (funcValue (layers h' p))) [2, 1, 0] =
          [FuncValue fnA, FuncValue fnB, FuncValue fnA] \<and>
        getNextLayer (methInfos h' ip) 0 = None \<and>
        getNextLayer (methInfos h' ip) 1 \<noteq> None \<and>
        getNextLayer (methInfos h' ip) 2 \<noteq> None)"
proof -
  from declareAll_heap0 obtain h' where
    h': "declareAll heap0 ''User'' ''Write'' [FuncValue fnA, FuncValue fnB, FuncValue fnA] = Inr h'"
    by blast
  have reg: "modelRegistry heap0 ''User'' = Some 0" by (simp add: heap0_def)
  have none: "get (methods (models heap0 0)) ''Write'' = None"
    by (simp add: heap0_def userModel_def newMethodsCollection_def get_def)
  have ne: "[FuncValue fnA, FuncValue fnB, FuncValue fnA] \<noteq> []" by simp
  have fl: "freeLayer heap0 = 0" by (simp add: heap0_def)
  have upt: "rev [0 ..< 0 + length [FuncValue fnA, FuncValue fnB, FuncValue fnA]] = [2, 1, 0::nat]"
    by (simp add: upt_rec)
  from layer_chain_of_registrations[OF reg none ne h']
  show ?thesis using h' unfolding Let_def fl upt
    by (auto simp del: layerChain.simps declareAll.simps simp: numeral_3_eq_3)
qed

section \<open>Failed registrations\<close>

text \<open>
  C4. On a model whose methods collection is bootstrapped, every call of
  \<open>DeclareMethod\<close> panics, and the heap it leaves is the heap it found: no
  methodInfo, no layer, no entry of the by-function table is written.
\<close>

theorem DeclareMethod_after_bootstrap:
  assumes "modelRegistry h mName = Some miP"
    and "bootstrapped (methods (models h miP))"
  shows "DeclareMethod h mName methodName fnct = Inl (MethodAfterBootstrap, h)"
  using assms by (simp add: DeclareMethod_def)

theorem DeclareMethod_after_bootstrap_witness:
  "modelRegistry bootHeap ''User'' = Some 0 \<and>
   bootstrapped (methods (models bootHeap 0)) \<and>
   DeclareMethod bootHeap ''User'' ''Write'' (FuncValue fnA) = Inl (MethodAfterBootstrap, bootHeap)"
proof -
  have reg: "modelRegistry bootHeap ''User'' = Some 0" by (simp add: bootHeap_def heap0_def)
  have b: "bootstrapped (methods (models bootHeap 0))" by (simp add: bootHeap_def)
  from DeclareMethod_after_bootstrap[OF reg b] reg b show ?thesis by simp
qed

text \<open>
  C5, as amended. Where the method exists, declaring a function whose type is not
  the method's declared type panics, and the heap it leaves is the heap it found:
  \<open>topLayer\<close>, \<open>nextLayer\<close> and the by-function table are untouched. The panic
  is the signature error on a model that is not bootstrapped, and the bootstrap
  error on a bootstrapped model, whose check comes first.
\<close>

theorem DeclareMethod_signature_mismatch:
  assumes "modelRegistry h mName = Some miP"
    and "get (methods (models h miP)) methodName = Some methInfoP"
    and "funcTy val \<noteq> methodType (methInfos h methInfoP)"
  shows "DeclareMethod h mName methodName (FuncValue val) =
     Inl (if bootstrapped (methods (models h miP)) then MethodAfterBootstrap
          else SignatureMismatch, h)"
  using assms by (auto simp: DeclareMethod_def)

lemma heap1_facts:
  "modelRegistry heap1 ''User'' = Some 0"
  "\<not> bootstrapped (methods (models heap1 0))"
  "get (methods (models heap1 0)) ''Write'' = Some 0"
  "methodType (methInfos heap1 0) = rsFuncType"
  by (simp_all add: heap1_def DeclareMethod_def newMethodInfo_def get_def set'_def
      heap0_def userModel_def newMethodsCollection_def fnA_def rsFuncType_def Let_def)

lemma bootHeap1_facts:
  "modelRegistry bootHeap1 ''User'' = Some 0"
  "bootstrapped (methods (models bootHeap1 0))"
  "get (methods (models bootHeap1 0)) ''Write'' = Some 0"
  "methodType (methInfos bootHeap1 0) = rsFuncType"
  using heap1_facts by (simp_all add: bootHeap1_def get_def)

lemma example_types_differ:
  "funcTy fnC \<noteq> rsFuncType" "funcTy fnD \<noteq> rsFuncType"
  by (simp_all add: fnC_def fnD_def rsFuncType_def rsIntFuncType_def handlerFuncType_def)

theorem DeclareMethod_signature_mismatch_witness:
  "modelRegistry heap1 ''User'' = Some 0 \<and>
   get (methods (models heap1 0)) ''Write'' = Some 0 \<and>
   funcTy fnC \<noteq> methodType (methInfos heap1 0) \<and>
   funcTy fnD \<noteq> methodType (methInfos heap1 0) \<and>
   DeclareMethod heap1 ''User'' ''Write'' (FuncValue fnC) = Inl (SignatureMismatch, heap1) \<and>
   DeclareMethod heap1 ''User'' ''Write'' (FuncValue fnD) = Inl (SignatureMismatch, heap1) \<and>
   DeclareMethod bootHeap1 ''User'' ''Write'' (FuncValue fnC) = Inl (MethodAfterBootstrap, bootHeap1)"
proof -
  have tyC: "funcTy fnC \<noteq> methodType (methInfos heap1 0)"
    and tyD: "funcTy fnD \<noteq> methodType (methInfos heap1 0)"
    by (simp_all add: heap1_facts(4) example_types_differ)
  have tyB: "funcTy fnC \<noteq> methodType (methInfos bootHeap1 0)"
    by (simp add: bootHeap1_facts(4) example_types_differ)
  from DeclareMethod_signature_mismatch[OF heap1_facts(1) heap1_facts(3) tyC]
  have c: "DeclareMethod heap1 ''User'' ''Write'' (FuncValue fnC) = Inl (SignatureMismatch, heap1)"
    using heap1_facts(2) by simp
  from DeclareMethod_signature_mismatch[OF heap1_facts(1) heap1_facts(3) tyD]
  have d: "DeclareMethod heap1 ''User'' ''Write'' (FuncValue fnD) = Inl (SignatureMismatch, heap1)"
    using heap1_facts(2) by simp
  from DeclareMethod_signature_mismatch[OF bootHeap1_facts(1) bootHeap1_facts(3) tyB]
  have b: "DeclareMethod bootHeap1 ''User'' ''Write'' (FuncValue fnC) =
      Inl (MethodAfterBootstrap, bootHeap1)"
    using bootHeap1_facts(2) by simp
  show ?thesis using heap1_facts(1) heap1_facts(3) tyC tyD c d b by blast
qed

text \<open>
  C5, as stated, fails: on a bootstrapped model whose method \<open>Write\<close> exists,
  declaring a function of another type panics with the bootstrap error, not with the
  signature error.
\<close>

theorem mismatch_after_bootstrap:
  "get (methods (models bootHeap1 0)) ''Write'' = Some 0 \<and>
   funcTy fnC \<noteq> methodType (methInfos bootHeap1 0) \<and>
   DeclareMethod bootHeap1 ''User'' ''Write'' (FuncValue fnC) = Inl (MethodAfterBootstrap, bootHeap1) \<and>
   DeclareMethod bootHeap1 ''User'' ''Write'' (FuncValue fnC) \<noteq> Inl (SignatureMismatch, bootHeap1)"
proof -
  have "DeclareMethod bootHeap1 ''User'' ''Write'' (FuncValue fnC) =
      Inl (MethodAfterBootstrap, bootHeap1)"
    using bootHeap1_facts(1) bootHeap1_facts(2) by (simp add: DeclareMethod_def)
  then show ?thesis by (simp add: bootHeap1_facts example_types_differ)
qed

section \<open>Facts of the example catalog\<close>

lemma exEnv_catalog:
  "rsMi (recordSet exQuery) = 0"
  "fieldsGet (modelStore exEnv 0) ''dept_id'' = Some \<lparr>json = ''dept_id'', relatedModel = Some 1, required = True\<rparr>"
  "fieldsGet (modelStore exEnv 0) ''mentor_id'' = Some \<lparr>json = ''mentor_id'', relatedModel = Some 0, required = False\<rparr>"
  "fieldsGet (modelStore exEnv 0) ''name'' = Some \<lparr>json = ''name'', relatedModel = None, required = False\<rparr>"
  "fieldsGet (modelStore exEnv 0) ''age'' = Some \<lparr>json = ''age'', relatedModel = None, required = False\<rparr>"
  "fieldsGet (modelStore exEnv (Suc 0)) ''name'' = Some \<lparr>json = ''name'', relatedModel = None, required = False\<rparr>"
  "fieldsGet (modelStore exEnv (Suc 0)) ''code'' = Some \<lparr>json = ''code'', relatedModel = None, required = False\<rparr>"
  "tableName (modelStore exEnv 0) = ''tbl''"
  "tableName (modelStore exEnv (Suc 0)) = ''dept''"
  "quoteTableName (adapter exEnv) t = CHR 0x22 # t @ [CHR 0x22]"
  "sqlSep exEnv = ''__''"
  "sqlString exEnv = exSqlString"
  "jsonizeExpr exEnv m xs = Inr xs"
  "operatorSQL (adapter exEnv) opr v = (opr @ '' ?'', v)"
  by (simp_all add: exEnv_def exQuery_def newQuery_def fieldsGet_def tblModel_def deptModel_def
      exAdapter_def)

lemma exEnv_field_exprs:
  "joinedFieldExpression exEnv exQuery [''name''] [] = Inr (CHR 0x22 # ''tbl'' @ CHR 0x22 # ''.name'')"
  "joinedFieldExpression exEnv exQuery [''age''] [] = Inr (CHR 0x22 # ''tbl'' @ CHR 0x22 # ''.age'')"
  "joinedFieldExpression exEnv exQuery [''dept_id''] [] = Inr (CHR 0x22 # ''tbl'' @ CHR 0x22 # ''.dept_id'')"
  by (simp_all add: joinedFieldExpression_def generateTableJoins_def currentTJ_def Let_def exEnv_catalog)

lemma exCondQuery_fieldExpression:
  "joinedFieldExpression exEnv exCondQuery xs wa = joinedFieldExpression exEnv exQuery xs wa"
  by (simp add: joinedFieldExpression_def generateTableJoins_def currentTJ_def exCondQuery_def)

lemma exCondQuery_where:
  "sqlWhereClause exEnv exCondQuery =
     Inr (''WHERE ('' @ CHR 0x22 # ''tbl'' @ CHR 0x22 # ''.name = ? OR '' @
          CHR 0x22 # ''tbl'' @ CHR 0x22 # ''.age = ? ) AND NOT '' @
          CHR 0x22 # ''tbl'' @ CHR 0x22 # ''.dept_id = ? '',
          [IntValue 1, IntValue 2, IntValue 3])"
proof -
  have mi: "rsMi (recordSet exCondQuery) = 0" "qCond exCondQuery = exCondition"
    by (simp_all add: exCondQuery_def exEnv_catalog)
  show ?thesis
    by (simp add: sqlWhereClause_def sqlxIn_def mi exCondition_def NewCondition_def IsEmpty_def
        Let_def Extend_def exEnv_catalog exCondQuery_fieldExpression exEnv_field_exprs)
qed

section \<open>INSERT and UPDATE queries\<close>

lemma insertLoop_unknown:
  "\<exists>k\<in>set (map fst data). fieldsGet m k = None \<Longrightarrow> \<exists>err. insertLoop m data i cols vals = Inl err"
  by (induction m data i cols vals rule: insertLoop.induct) (auto split: option.splits)

lemma insertLoop_known:
  "\<forall>k\<in>set (map fst data). fieldsGet m k \<noteq> None \<Longrightarrow> i + length data \<le> length cols \<Longrightarrow>
   length vals = length cols \<Longrightarrow>
   insertLoop m data i cols vals =
     Inr (take i cols @ map (\<lambda>(k, v). json (the (fieldsGet m k))) data @ drop (i + length data) cols,
          take i vals @ map snd data @ drop (i + length data) vals)"
proof (induction m data i cols vals rule: insertLoop.induct)
  case (1 m i cols vals)
  then show ?case by simp
next
  case (2 m k v rest i cols vals)
  from "2.prems"(1) obtain fi where fi: "fieldsGet m k = Some fi" by auto
  have i: "i < length cols" "i < length vals" using "2.prems" by auto
  have ih: "insertLoop m rest (Suc i) (cols[i := json fi]) (vals[i := v]) =
     Inr (take (Suc i) (cols[i := json fi]) @ map (\<lambda>(k, v). json (the (fieldsGet m k))) rest @
            drop (Suc i + length rest) (cols[i := json fi]),
          take (Suc i) (vals[i := v]) @ map snd rest @ drop (Suc i + length rest) (vals[i := v]))"
    using "2.IH"[OF fi] "2.prems" by simp
  have t1: "take (Suc i) (cols[i := json fi]) = take i cols @ [json fi]"
    using i by (simp add: take_Suc_conv_app_nth)
  have t2: "take (Suc i) (vals[i := v]) = take i vals @ [v]"
    using i by (simp add: take_Suc_conv_app_nth)
  show ?case using fi ih t1 t2 by simp
qed

lemma Join_placeholders: "0 < n \<Longrightarrow> ''?'' @ Repeat '', ?'' (n - 1) = Join (replicate n ''?'') '', ''"
proof (induction n)
  case 0
  then show ?case by simp
next
  case (Suc n)
  show ?case
  proof (cases n)
    case 0
    then show ?thesis by (simp add: Repeat_def)
  next
    case (Suc k)
    with Suc.IH have "''?'' @ Repeat '', ?'' k = Join (replicate (Suc k) ''?'') '', ''" by simp
    then show ?thesis using Suc by (simp add: Repeat_def)
  qed
qed

text \<open>
  C6. \<open>insertQuery\<close> panics exactly when the map is empty or one of its keys is
  not a field of the model. Otherwise it returns
  \<open>INSERT INTO <quoted table> (<columns>) VALUES (?, ..., ?) RETURNING id\<close> with one
  placeholder per entry; the columns are the storage names of the keys and the
  arguments the values, both in the order the entries are visited, so the i-th
  column and the i-th argument come from the i-th entry.
\<close>

theorem insertQuery_spec:
  "((\<exists>err. insertQuery e q data = Inl err) =
      (data = [] \<or> (\<exists>k\<in>set (map fst data). fieldsGet (modelStore e (rsMi (recordSet q))) k = None))) \<and>
   (data \<noteq> [] \<and> (\<forall>k\<in>set (map fst data). fieldsGet (modelStore e (rsMi (recordSet q))) k \<noteq> None) \<longrightarrow>
      insertQuery e q data =
        Inr (''INSERT INTO '' @ quoteTableName (adapter e) (tableName (modelStore e (rsMi (recordSet q)))) @
             '' ('' @
             Join (map (\<lambda>(k, v). json (the (fieldsGet (modelStore e (rsMi (recordSet q))) k))) data) '', '' @
             '') VALUES ('' @ Join (replicate (length data) ''?'') '', '' @ '') RETURNING id'',
             map snd data))"
proof -
  let ?m = "modelStore e (rsMi (recordSet q))"
  have ok: "insertQuery e q data =
        Inr (''INSERT INTO '' @ quoteTableName (adapter e) (tableName ?m) @ '' ('' @
             Join (map (\<lambda>(k, v). json (the (fieldsGet ?m k))) data) '', '' @
             '') VALUES ('' @ Join (replicate (length data) ''?'') '', '' @ '') RETURNING id'',
             map snd data)"
    if ne: "data \<noteq> []" and known: "\<forall>k\<in>set (map fst data). fieldsGet ?m k \<noteq> None"
  proof -
    have "insertLoop ?m data 0 (replicate (length data) []) (replicate (length data) NilValue) =
      Inr (map (\<lambda>(k, v). json (the (fieldsGet ?m k))) data, map snd data)"
      using insertLoop_known[OF known, of 0 "replicate (length data) []" "replicate (length data) NilValue"]
      by simp
    moreover have "''?'' @ Repeat '', ?'' (length (map snd data) - 1) = Join (replicate (length data) ''?'') '', ''"
      using Join_placeholders[of "length data"] ne by simp
    ultimately show ?thesis using ne by (simp add: insertQuery_def Let_def)
  qed
  have fail1: "\<exists>err. insertQuery e q data = Inl err" if "data = []"
    using that by (simp add: insertQuery_def)
  have fail2: "\<exists>err. insertQuery e q data = Inl err"
    if "\<exists>k\<in>set (map fst data). fieldsGet ?m k = None"
  proof -
    from insertLoop_unknown[OF that] obtain err where
      "insertLoop ?m data 0 (replicate (length data) []) (replicate (length data) NilValue) = Inl err"
      by blast
    then show ?thesis by (simp add: insertQuery_def)
  qed
  have iff: "(\<exists>err. insertQuery e q data = Inl err) =
      (data = [] \<or> (\<exists>k\<in>set (map fst data). fieldsGet ?m k = None))"
  proof
    assume l: "\<exists>err. insertQuery e q data = Inl err"
    show "data = [] \<or> (\<exists>k\<in>set (map fst data). fieldsGet ?m k = None)"
    proof (rule ccontr)
      assume "\<not> (data = [] \<or> (\<exists>k\<in>set (map fst data). fieldsGet ?m k = None))"
      then have "data \<noteq> []" "\<forall>k\<in>set (map fst data). fieldsGet ?m k \<noteq> None" by simp_all
      from ok[OF this] l show False by simp
    qed
  next
    assume "data = [] \<or> (\<exists>k\<in>set (map fst data). fieldsGet ?m k = None)"
    then show "\<exists>err. insertQuery e q data = Inl err" using fail1 fail2 by blast
  qed
  show ?thesis using iff ok by blast
qed

lemma exEnv_fields:
  "fieldsGet (modelStore exEnv (rsMi (recordSet exQuery))) ''name'' = Some \<lparr>json = ''name'', relatedModel = None, required = False\<rparr>"
  "fieldsGet (modelStore exEnv (rsMi (recordSet exQuery))) ''age'' = Some \<lparr>json = ''age'', relatedModel = None, required = False\<rparr>"
  "fieldsGet (modelStore exEnv (rsMi (recordSet exQuery))) ''nope'' = None"
  "tableName (modelStore exEnv (rsMi (recordSet exQuery))) = ''tbl''"
  by (simp_all add: exEnv_def exQuery_def newQuery_def fieldsGet_def tblModel_def)

theorem insertQuery_spec_witness:
  "insertQuery exEnv exQuery [(''name'', StringValue ''Bob''), (''age'', IntValue 30)] =
     Inr (''INSERT INTO '' @ CHR 0x22 # ''tbl'' @ CHR 0x22 # '' (name, age) VALUES (?, ?) RETURNING id'',
          [StringValue ''Bob'', IntValue 30]) \<and>
   (\<exists>err. insertQuery exEnv exQuery [] = Inl err) \<and>
   (\<exists>err. insertQuery exEnv exQuery [(''nope'', IntValue 1)] = Inl err)"
proof -
  have q: "quoteTableName (adapter exEnv) ''tbl'' = CHR 0x22 # ''tbl'' @ [CHR 0x22]"
    by (simp add: exEnv_def exAdapter_def)
  have r2: "replicate (length [(''name'', StringValue ''Bob''), (''age'', IntValue 30)]) ''?'' = [''?'', ''?'']"
    by (simp add: numeral_2_eq_2)
  from insertQuery_spec[of exEnv exQuery "[(''name'', StringValue ''Bob''), (''age'', IntValue 30)]"]
  have a: "insertQuery exEnv exQuery [(''name'', StringValue ''Bob''), (''age'', IntValue 30)] =
     Inr (''INSERT INTO '' @ CHR 0x22 # ''tbl'' @ CHR 0x22 # '' (name, age) VALUES (?, ?) RETURNING id'',
          [StringValue ''Bob'', IntValue 30])"
    unfolding r2 by (simp add: exEnv_fields q)
  from insertQuery_spec[of exEnv exQuery "[]"]
  have b: "\<exists>err. insertQuery exEnv exQuery [] = Inl err" by simp
  from insertQuery_spec[of exEnv exQuery "[(''nope'', IntValue 1)]"]
  have c: "\<exists>err. insertQuery exEnv exQuery [(''nope'', IntValue 1)] = Inl err"
    by (simp add: exEnv_fields)
  show ?thesis using a b c by blast
qed

lemma updateLoop_unknown:
  "\<exists>k\<in>set (map fst data). fieldsGet m k = None \<Longrightarrow> \<exists>err. updateLoop m data i cols vals = Inl err"
  by (induction m data i cols vals rule: updateLoop.induct) (auto split: option.splits)

lemma updateLoop_known:
  "\<forall>k\<in>set (map fst data). fieldsGet m k \<noteq> None \<Longrightarrow> i + length data \<le> length cols \<Longrightarrow>
   length vals = length cols \<Longrightarrow>
   updateLoop m data i cols vals =
     Inr (take i cols @ map (\<lambda>(k, v). json (the (fieldsGet m k)) @ '' = ?'') data @
            drop (i + length data) cols,
          take i vals @ map snd data @ drop (i + length data) vals)"
proof (induction m data i cols vals rule: updateLoop.induct)
  case (1 m i cols vals)
  then show ?case by simp
next
  case (2 m k v rest i cols vals)
  from "2.prems"(1) obtain fi where fi: "fieldsGet m k = Some fi" by auto
  have i: "i < length cols" "i < length vals" using "2.prems" by auto
  have ih: "updateLoop m rest (Suc i) (cols[i := json fi @ '' = ?'']) (vals[i := v]) =
     Inr (take (Suc i) (cols[i := json fi @ '' = ?'']) @
            map (\<lambda>(k, v). json (the (fieldsGet m k)) @ '' = ?'') rest @
            drop (Suc i + length rest) (cols[i := json fi @ '' = ?'']),
          take (Suc i) (vals[i := v]) @ map snd rest @ drop (Suc i + length rest) (vals[i := v]))"
    using "2.IH"[OF fi] "2.prems" by simp
  have t1: "take (Suc i) (cols[i := json fi @ '' = ?'']) = take i cols @ [json fi @ '' = ?'']"
    using i by (simp add: take_Suc_conv_app_nth)
  have t2: "take (Suc i) (vals[i := v]) = take i vals @ [v]"
    using i by (simp add: take_Suc_conv_app_nth)
  show ?case using fi ih t1 t2 by simp
qed

text \<open>
  C7. For a non-empty map, \<open>updateQuery\<close> returns exactly when every key is a
  field of the model and \<open>sqlWhereClause\<close>, the compiler of the WHERE clause that
  the other queries use, returns; the text then ends with that WHERE clause and the
  arguments are the update values followed by the arguments of the WHERE clause.
\<close>

theorem updateQuery_arguments:
  "data \<noteq> [] \<longrightarrow>
   (updateQuery e q data = Inr (sql, as)) =
   ((\<forall>k\<in>set (map fst data). fieldsGet (modelStore e (rsMi (recordSet q))) k \<noteq> None) \<and>
    (\<exists>whereSQL args. sqlWhereClause e q = Inr (whereSQL, args) \<and>
       sql = ''UPDATE '' @ quoteTableName (adapter e) (tableName (modelStore e (rsMi (recordSet q)))) @
             '' SET '' @
             Join (map (\<lambda>(k, v). json (the (fieldsGet (modelStore e (rsMi (recordSet q))) k)) @ '' = ?'') data) '', '' @
             '' '' @ whereSQL \<and>
       as = map snd data @ args))"
proof
  assume ne: "data \<noteq> []"
  let ?m = "modelStore e (rsMi (recordSet q))"
  let ?loop = "updateLoop ?m data 0 (replicate (length data) []) (replicate (length data) NilValue)"
  show "(updateQuery e q data = Inr (sql, as)) =
   ((\<forall>k\<in>set (map fst data). fieldsGet ?m k \<noteq> None) \<and>
    (\<exists>whereSQL args. sqlWhereClause e q = Inr (whereSQL, args) \<and>
       sql = ''UPDATE '' @ quoteTableName (adapter e) (tableName ?m) @ '' SET '' @
             Join (map (\<lambda>(k, v). json (the (fieldsGet ?m k)) @ '' = ?'') data) '', '' @
             '' '' @ whereSQL \<and>
       as = map snd data @ args))"
  proof (cases "\<forall>k\<in>set (map fst data). fieldsGet ?m k \<noteq> None")
    case True
    have loop: "?loop = Inr (map (\<lambda>(k, v). json (the (fieldsGet ?m k)) @ '' = ?'') data, map snd data)"
      using updateLoop_known[OF True, of 0 "replicate (length data) []" "replicate (length data) NilValue"]
      by simp
    show ?thesis
    proof (cases "sqlWhereClause e q")
      case (Inl err)
      then show ?thesis using ne loop by (simp add: updateQuery_def Let_def)
    next
      case (Inr r)
      obtain w args where r: "r = (w, args)" by (cases r)
      show ?thesis using ne loop Inr True unfolding r by (auto simp: updateQuery_def Let_def)
    qed
  next
    case False
    then have "\<exists>k\<in>set (map fst data). fieldsGet ?m k = None" by simp
    from updateLoop_unknown[OF this] obtain err where "?loop = Inl err" by blast
    then show ?thesis using False ne by (simp add: updateQuery_def)
  qed
qed

lemma exQuery_where: "sqlWhereClause exEnv exQuery = Inr ([], [])"
  by (simp add: sqlWhereClause_def sqlxIn_def exQuery_def newQuery_def NewCondition_def IsEmpty_def)

theorem updateQuery_arguments_witness:
  "sqlWhereClause exEnv exCondQuery =
     Inr (''WHERE ('' @ CHR 0x22 # ''tbl'' @ CHR 0x22 # ''.name = ? OR '' @
          CHR 0x22 # ''tbl'' @ CHR 0x22 # ''.age = ? ) AND NOT '' @
          CHR 0x22 # ''tbl'' @ CHR 0x22 # ''.dept_id = ? '',
          [IntValue 1, IntValue 2, IntValue 3]) \<and>
   updateQuery exEnv exCondQuery [(''name'', StringValue ''Bob''), (''age'', IntValue 30)] =
     Inr (''UPDATE '' @ CHR 0x22 # ''tbl'' @ CHR 0x22 # '' SET name = ?, age = ? '' @
          ''WHERE ('' @ CHR 0x22 # ''tbl'' @ CHR 0x22 # ''.name = ? OR '' @
          CHR 0x22 # ''tbl'' @ CHR 0x22 # ''.age = ? ) AND NOT '' @
          CHR 0x22 # ''tbl'' @ CHR 0x22 # ''.dept_id = ? '',
          [StringValue ''Bob'', IntValue 30, IntValue 1, IntValue 2, IntValue 3]) \<and>
   updateQuery exEnv exCondQuery [(''name'', StringValue ''Bob''), (''age'', IntValue 30)] \<noteq>
     Inr (''UPDATE '' @ CHR 0x22 # ''tbl'' @ CHR 0x22 # '' SET name = ?, age = ? '' @
          ''WHERE ('' @ CHR 0x22 # ''tbl'' @ CHR 0x22 # ''.name = ? OR '' @
          CHR 0x22 # ''tbl'' @ CHR 0x22 # ''.age = ? ) AND NOT '' @
          CHR 0x22 # ''tbl'' @ CHR 0x22 # ''.dept_id = ? '',
          [IntValue 1, IntValue 2, IntValue 3, StringValue ''Bob'', IntValue 30]) \<and>
   updateQuery exEnv exQuery [(''name'', StringValue ''Bob''), (''age'', IntValue 30)] =
     Inr (''UPDATE '' @ CHR 0x22 # ''tbl'' @ CHR 0x22 # '' SET name = ?, age = ? '',
          [StringValue ''Bob'', IntValue 30])"
proof -
  let ?data = "[(''name'', StringValue ''Bob''), (''age'', IntValue 30)]"
  let ?set = "''UPDATE '' @ CHR 0x22 # ''tbl'' @ CHR 0x22 # '' SET name = ?, age = ? ''"
  let ?where = "''WHERE ('' @ CHR 0x22 # ''tbl'' @ CHR 0x22 # ''.name = ? OR '' @
          CHR 0x22 # ''tbl'' @ CHR 0x22 # ''.age = ? ) AND NOT '' @
          CHR 0x22 # ''tbl'' @ CHR 0x22 # ''.dept_id = ? ''"
  have mi: "rsMi (recordSet exCondQuery) = 0" by (simp add: exCondQuery_def exEnv_catalog)
  from updateQuery_arguments[of ?data exEnv exCondQuery "?set @ ?where"
      "[StringValue ''Bob'', IntValue 30, IntValue 1, IntValue 2, IntValue 3]"]
  have a: "updateQuery exEnv exCondQuery ?data =
      Inr (?set @ ?where, [StringValue ''Bob'', IntValue 30, IntValue 1, IntValue 2, IntValue 3])"
    by (simp add: mi exEnv_catalog exCondQuery_where)
  from updateQuery_arguments[of ?data exEnv exCondQuery "?set @ ?where"
      "[IntValue 1, IntValue 2, IntValue 3, StringValue ''Bob'', IntValue 30]"]
  have b: "updateQuery exEnv exCondQuery ?data \<noteq>
      Inr (?set @ ?where, [IntValue 1, IntValue 2, IntValue 3, StringValue ''Bob'', IntValue 30])"
    by (simp add: mi exEnv_catalog exCondQuery_where)
  from updateQuery_arguments[of ?data exEnv exQuery ?set "[StringValue ''Bob'', IntValue 30]"]
  have c: "updateQuery exEnv exQuery ?data = Inr (?set, [StringValue ''Bob'', IntValue 30])"
    by (simp add: exEnv_catalog exQuery_where)
  show ?thesis using exCondQuery_where a b c by simp
qed

section \<open>Empty conditions\<close>

lemma node_of_head: "0 < leafNodesIn v + subCondNodesIn v"
  by (cases v) simp

text \<open>
  C8. A condition is empty exactly when its tree has no leaf node and no
  sub-condition node, and a query whose condition is empty has no WHERE clause:
  \<open>sqlWhereClause\<close> returns the empty text and no argument.
\<close>

theorem empty_condition_no_where:
  "IsEmpty c = (leafNodes c = 0 \<and> subCondNodes c = 0) \<and>
   (IsEmpty (qCond q) \<longrightarrow> sqlWhereClause e q = Inr ([], []))"
proof
  obtain ps where c: "c = Condition ps" by (cases c)
  show "IsEmpty c = (leafNodes c = 0 \<and> subCondNodes c = 0)"
  proof (cases ps)
    case Nil
    then show ?thesis by (simp add: c IsEmpty_def)
  next
    case (Cons v vs)
    with node_of_head[of v] show ?thesis by (auto simp: c IsEmpty_def)
  qed
next
  show "IsEmpty (qCond q) \<longrightarrow> sqlWhereClause e q = Inr ([], [])"
  proof
    assume em: "IsEmpty (qCond q)"
    obtain ps where c: "qCond q = Condition ps" by (cases "qCond q")
    with em have "conditionSQLClause e q (qCond q) = Inr ([], [])" by simp
    then show "sqlWhereClause e q = Inr ([], [])" by (simp add: sqlWhereClause_def sqlxIn_def)
  qed
qed

theorem empty_condition_no_where_witness:
  "IsEmpty NewCondition \<and> leafNodes NewCondition = 0 \<and> subCondNodes NewCondition = 0 \<and>
   \<not> IsEmpty (Condition [CondValue [] [] NilValue NewCondition False False True]) \<and>
   subCondNodes (Condition [CondValue [] [] NilValue NewCondition False False True]) = 1 \<and>
   IsEmpty (qCond exQuery) \<and> sqlWhereClause exEnv exQuery = Inr ([], [])"
proof -
  have e: "IsEmpty (qCond exQuery)"
    by (simp add: exQuery_def newQuery_def NewCondition_def IsEmpty_def)
  from empty_condition_no_where[of NewCondition exQuery exEnv] e
  have a: "IsEmpty NewCondition = (leafNodes NewCondition = 0 \<and> subCondNodes NewCondition = 0)"
    and b: "sqlWhereClause exEnv exQuery = Inr ([], [])" by blast+
  have c: "leafNodes NewCondition = 0 \<and> subCondNodes NewCondition = 0"
    by (simp add: NewCondition_def)
  from empty_condition_no_where[of "Condition [CondValue [] [] NilValue NewCondition False False True]" exQuery exEnv]
  have d: "\<not> IsEmpty (Condition [CondValue [] [] NilValue NewCondition False False True])"
    by (simp add: NewCondition_def)
  have f: "subCondNodes (Condition [CondValue [] [] NilValue NewCondition False False True]) = 1"
    by (simp add: NewCondition_def)
  show ?thesis using a b c d e f by blast
qed

section \<open>The order of the views of a model\<close>

text \<open>
  C9. Adding a view of priority 1 and then a view of priority 5 to the empty
  collection leaves the views of the model in the order 5, 1: the loop ends with
  \<open>index\<close> at the last position it visited, not one past it, so the new view is
  put before the last view instead of after it. The list is not sorted, and
  \<open>GetFirstViewForModel\<close> returns the view of priority 5.
\<close>

theorem AddView_breaks_priority_order:
  "\<exists>vc1 vc2. AddView NewViewsCollection viewLow = Inr vc1 \<and> AddView vc1 viewHigh = Inr vc2 \<and>
     orderedViewsOf vc2 ''m'' = [viewHigh, viewLow] \<and>
     map Priority (orderedViewsOf vc2 ''m'') = [5, 1] \<and>
     \<not> sorted (map Priority (orderedViewsOf vc2 ''m'')) \<and>
     GetFirstViewForModel vc2 ''m'' ''form'' = Inr viewHigh"
  by (simp add: AddView_def NewViewsCollection_def orderedViewsOf_def GetFirstViewForModel_def
      viewLow_def viewHigh_def word_le_nat_alt)

section \<open>Joins\<close>

lemma joinsLoop_shape:
  "joinsLoop e n i xs curMI curTJ als joins = Inr js \<Longrightarrow> i + length xs = n \<Longrightarrow>
   \<exists>new. js = joins @ new \<and> length new \<le> length xs - 1 \<and> list_all joined new \<and>
     map otherField new = take (length new) xs \<and>
     list_all (\<lambda>j. \<exists>t. joinAlias j = quoteTableName (adapter e) t) new"
proof (induction xs arbitrary: i curMI curTJ als joins)
  case Nil
  then show ?case by simp
next
  case (Cons x xs)
  show ?case
  proof (cases "fieldsGet (modelStore e curMI) x")
    case None
    with Cons.prems show ?thesis by simp
  next
    case (Some fi)
    show ?thesis
    proof (cases "relatedModel fi")
      case None
      with Some Cons.prems show ?thesis by simp
    next
      case (Some rm)
      note rm = Some
      show ?thesis
      proof (cases "int i = int n - 1")
        case True
        with rm \<open>fieldsGet (modelStore e curMI) x = Some fi\<close> Cons.prems show ?thesis by simp
      next
        case False
        with Cons.prems(2) have ne: "xs \<noteq> []" by auto
        define nxt where "nxt = TableJoin (quoteTableName (adapter e) (tableName (modelStore e rm))) True
             (if required fi then True else False) ''id'' (Some curTJ) x
             (quoteTableName (adapter e) (als @ sqlSep e @ tableName (modelStore e rm)))"
        from Cons.prems(1) False rm \<open>fieldsGet (modelStore e curMI) x = Some fi\<close>
        have rec: "joinsLoop e n (Suc i) xs rm nxt (als @ sqlSep e @ tableName (modelStore e rm))
                     (joins @ [nxt]) = Inr js"
          by (simp add: Let_def nxt_def)
        from Cons.prems(2) have "Suc i + length xs = n" by simp
        from Cons.IH[OF rec this] obtain new where new: "js = (joins @ [nxt]) @ new"
          "length new \<le> length xs - 1" "list_all joined new"
          "map otherField new = take (length new) xs"
          "list_all (\<lambda>j. \<exists>t. joinAlias j = quoteTableName (adapter e) t) new"
          by blast
        have "js = joins @ (nxt # new)" using new(1) by simp
        moreover have "length (nxt # new) \<le> length (x # xs) - 1" using new(2) ne
          by (cases xs) auto
        moreover have "list_all joined (nxt # new)" using new(3) by (simp add: nxt_def)
        moreover have "map otherField (nxt # new) = take (length (nxt # new)) (x # xs)"
          using new(4) by (simp add: nxt_def)
        moreover have "list_all (\<lambda>j. \<exists>t. joinAlias j = quoteTableName (adapter e) t) (nxt # new)"
          using new(5) by (auto simp: nxt_def)
        ultimately show ?thesis by blast
      qed
    qed
  qed
qed

lemma generateTableJoins_shape:
  assumes "generateTableJoins e q xs = Inr js"
  shows "\<exists>new. js = currentTJ e q # new \<and> length new \<le> length xs - 1 \<and> list_all joined new \<and>
     map otherField new = take (length new) xs \<and>
     list_all (\<lambda>j. \<exists>t. joinAlias j = quoteTableName (adapter e) t) js"
proof -
  from assms have "joinsLoop e (length xs) 0 xs (rsMi (recordSet q)) (currentTJ e q)
      (tableName (modelStore e (rsMi (recordSet q)))) [currentTJ e q] = Inr js"
    by (simp add: generateTableJoins_def Let_def)
  from joinsLoop_shape[OF this] obtain new where new: "js = [currentTJ e q] @ new"
    "length new \<le> length xs - 1" "list_all joined new"
    "map otherField new = take (length new) xs"
    "list_all (\<lambda>j. \<exists>t. joinAlias j = quoteTableName (adapter e) t) new"
    by auto
  have "\<exists>t. joinAlias (currentTJ e q) = quoteTableName (adapter e) t"
    by (auto simp: currentTJ_def Let_def)
  with new show ?thesis by auto
qed

lemma one_relation_crossed:
  assumes "fieldsGet (modelStore e (rsMi (recordSet q))) r = Some fi"
    and "relatedModel fi = Some rm"
    and "fieldsGet (modelStore e rm) f = Some fj"
    and "relatedModel fj = None \<or> rest = []"
  shows "generateTableJoins e q (r # f # rest) =
     Inr [currentTJ e q,
          TableJoin (quoteTableName (adapter e) (tableName (modelStore e rm))) True (required fi) ''id''
            (Some (currentTJ e q)) r
            (quoteTableName (adapter e)
               (tableName (modelStore e (rsMi (recordSet q))) @ sqlSep e @ tableName (modelStore e rm)))]"
  using assms by (cases "required fi") (auto simp: generateTableJoins_def Let_def split: option.splits)

lemma firstPerAlias_append:
  "firstPerAlias (xs @ ys) =
   firstPerAlias xs @ firstPerAlias (filter (\<lambda>k. joinAlias k \<notin> joinAlias ` set xs) ys)"
proof (induction xs arbitrary: ys rule: firstPerAlias.induct)
  case 1
  then show ?case by simp
next
  case (2 j js)
  have "filter (\<lambda>k. joinAlias k \<notin> joinAlias ` set (filter (\<lambda>k. joinAlias k \<noteq> joinAlias j) js))
          (filter (\<lambda>k. joinAlias k \<noteq> joinAlias j) ys) =
        filter (\<lambda>k. joinAlias k \<notin> joinAlias ` set (j # js)) ys"
    by (induction ys) auto
  with "2.IH"[of "filter (\<lambda>k. joinAlias k \<noteq> joinAlias j) ys"] show ?case by simp
qed

lemma firstPerAlias_aliases: "joinAlias ` set (firstPerAlias js) = joinAlias ` set js"
  by (induction js rule: firstPerAlias.induct) auto

lemma firstPerAlias_distinct: "distinct (map joinAlias (firstPerAlias js))"
proof (induction js rule: firstPerAlias.induct)
  case 1
  then show ?case by simp
next
  case (2 j js)
  have "joinAlias j \<notin> joinAlias ` set (filter (\<lambda>k. joinAlias k \<noteq> joinAlias j) js)" by auto
  with 2 show ?case by (simp add: firstPerAlias_aliases)
qed

lemma tablesJoinsLoop_firstPerAlias:
  "\<exists>jm'. tablesJoinsLoop e js (jm, res) =
     (jm', res @ concat (map (sqlString e) (firstPerAlias (filter (\<lambda>k. joinAlias k \<notin> dom jm) js)))) \<and>
     dom jm' = dom jm \<union> joinAlias ` set js"
proof (induction js arbitrary: jm res)
  case Nil
  then show ?case by simp
next
  case (Cons j js)
  show ?case
  proof (cases "jm (joinAlias j)")
    case None
    have f: "filter (\<lambda>k. joinAlias k \<noteq> joinAlias j) (filter (\<lambda>k. joinAlias k \<notin> dom jm) js) =
             filter (\<lambda>k. joinAlias k \<notin> dom (jm(joinAlias j \<mapsto> True))) js"
      by (induction js) auto
    have g: "filter (\<lambda>k. joinAlias k \<notin> dom jm) (j # js) = j # filter (\<lambda>k. joinAlias k \<notin> dom jm) js"
      using None by (simp add: domIff)
    have fl: "firstPerAlias (filter (\<lambda>k. joinAlias k \<notin> dom jm) (j # js)) =
        j # firstPerAlias (filter (\<lambda>k. joinAlias k \<notin> dom (jm(joinAlias j \<mapsto> True))) js)"
      by (simp only: g firstPerAlias.simps f)
    have step: "tablesJoinsLoop e (j # js) (jm, res) =
        tablesJoinsLoop e js (jm(joinAlias j \<mapsto> True), res @ sqlString e j)"
      using None by simp
    from Cons.IH[of "jm(joinAlias j \<mapsto> True)" "res @ sqlString e j"] obtain jm' where
      jm': "tablesJoinsLoop e js (jm(joinAlias j \<mapsto> True), res @ sqlString e j) =
        (jm', (res @ sqlString e j) @ concat (map (sqlString e)
           (firstPerAlias (filter (\<lambda>k. joinAlias k \<notin> dom (jm(joinAlias j \<mapsto> True))) js))))"
        "dom jm' = dom (jm(joinAlias j \<mapsto> True)) \<union> joinAlias ` set js"
      by blast
    have "dom jm' = dom jm \<union> joinAlias ` set (j # js)" using jm'(2) by auto
    then show ?thesis unfolding step fl using jm'(1) by simp
  next
    case (Some b)
    have g: "filter (\<lambda>k. joinAlias k \<notin> dom jm) (j # js) = filter (\<lambda>k. joinAlias k \<notin> dom jm) js"
      using Some by (simp add: domIff)
    have step: "tablesJoinsLoop e (j # js) (jm, res) = tablesJoinsLoop e js (jm, res)"
      using Some by simp
    from Cons.IH[of jm res] obtain jm' where
      jm': "tablesJoinsLoop e js (jm, res) =
        (jm', res @ concat (map (sqlString e) (firstPerAlias (filter (\<lambda>k. joinAlias k \<notin> dom jm) js))))"
        "dom jm' = dom jm \<union> joinAlias ` set js"
      by blast
    have "dom jm' = dom jm \<union> joinAlias ` set (j # js)" using jm'(2) Some by auto
    then show ?thesis unfolding step g using jm'(1) by simp
  qed
qed

lemma filter_unseen:
  "filter (\<lambda>k. joinAlias k \<notin> joinAlias ` set (filter (\<lambda>k. joinAlias k \<notin> D) js))
     (filter (\<lambda>k. joinAlias k \<notin> D) ys) =
   filter (\<lambda>k. joinAlias k \<notin> D \<union> joinAlias ` set js) ys"
  by (induction ys) auto

lemma tablesLoop_firstPerAlias:
  "map (generateTableJoins e q) ps = map Inr jss \<Longrightarrow>
   tablesLoop e q ps (jm, res) =
     Inr (res @ concat (map (sqlString e) (firstPerAlias (filter (\<lambda>k. joinAlias k \<notin> dom jm) (concat jss)))))"
proof (induction ps arbitrary: jss jm res)
  case Nil
  then show ?case by simp
next
  case (Cons p ps)
  then obtain js jss' where jss: "jss = js # jss'" "generateTableJoins e q p = Inr js"
    "map (generateTableJoins e q) ps = map Inr jss'" by (cases jss) auto
  from tablesJoinsLoop_firstPerAlias[of e js jm res] obtain jm' where
    jm': "tablesJoinsLoop e js (jm, res) =
      (jm', res @ concat (map (sqlString e) (firstPerAlias (filter (\<lambda>k. joinAlias k \<notin> dom jm) js))))"
    "dom jm' = dom jm \<union> joinAlias ` set js" by blast
  have f: "filter (\<lambda>k. joinAlias k \<notin> joinAlias ` set (filter (\<lambda>k. joinAlias k \<notin> dom jm) js))
             (filter (\<lambda>k. joinAlias k \<notin> dom jm) (concat jss')) =
           filter (\<lambda>k. joinAlias k \<notin> dom jm') (concat jss')"
    unfolding jm'(2) by (rule filter_unseen)
  have sp: "filter (\<lambda>k. joinAlias k \<notin> dom jm) (concat jss) =
      filter (\<lambda>k. joinAlias k \<notin> dom jm) js @ filter (\<lambda>k. joinAlias k \<notin> dom jm) (concat jss')"
    by (simp add: jss(1))
  have A: "firstPerAlias (filter (\<lambda>k. joinAlias k \<notin> dom jm) (concat jss)) =
      firstPerAlias (filter (\<lambda>k. joinAlias k \<notin> dom jm) js) @
      firstPerAlias (filter (\<lambda>k. joinAlias k \<notin> dom jm') (concat jss'))"
    by (simp only: sp firstPerAlias_append f)
  have B: "tablesLoop e q (p # ps) (jm, res) = tablesLoop e q ps (tablesJoinsLoop e js (jm, res))"
    using jss(2) by simp
  from Cons.IH[OF jss(3), of jm' "res @ concat (map (sqlString e) (firstPerAlias (filter (\<lambda>k. joinAlias k \<notin> dom jm) js)))"]
  show ?case unfolding B jm'(1) A by (simp only: map_append concat_append append_assoc)
qed

lemma tablesSQL_firstPerAlias:
  "map (generateTableJoins e q) ps = map Inr jss \<Longrightarrow>
   tablesSQL e q ps = Inr (concat (map (sqlString e) (firstPerAlias (concat jss))))"
  using tablesLoop_firstPerAlias[of e q ps jss Map.empty "[]"] by (simp add: tablesSQL_def)

text \<open>
  C3. A path \<open>r # f # rest\<close> whose first segment is a relation field and whose
  second segment is a field of the related model, the last of the path or no
  relation, crosses exactly one relation: \<open>generateTableJoins\<close> returns the node of
  the query's own table (not joined) and exactly one join node, flagged INNER exactly
  when the relation is required, so not flagged (a LEFT join) when it is optional.
  Two such paths through the same relation compile to a FROM clause with the own
  table and that one join, once, provided the adapter gives the join an alias other
  than the own table's.

  Of any path, the joins returned beyond the own table are at most one fewer than
  the segments, each made from the segment at its position: the last segment makes
  no join.

  Of any list of paths, \<open>tablesSQL\<close> writes one join per alias, the first in order
  of appearance.
\<close>

theorem join_per_relation:
  "(fieldsGet (modelStore e (rsMi (recordSet q))) r = Some fi \<and> relatedModel fi = Some rm \<and>
    fieldsGet (modelStore e rm) f = Some fj \<and> (relatedModel fj = None \<or> rest = []) \<longrightarrow>
      (\<exists>j. generateTableJoins e q (r # f # rest) = Inr [currentTJ e q, j] \<and>
           \<not> joined (currentTJ e q) \<and> joined j \<and> innerJoin j = required fi \<and>
           otherField j = r \<and> otherTable j = Some (currentTJ e q) \<and>
           joinTableName j = quoteTableName (adapter e) (tableName (modelStore e rm)) \<and>
           joinAlias j = quoteTableName (adapter e)
             (tableName (modelStore e (rsMi (recordSet q))) @ sqlSep e @ tableName (modelStore e rm)) \<and>
           (fieldsGet (modelStore e rm) g = Some fk \<and> (relatedModel fk = None \<or> rest' = []) \<and>
            joinAlias j \<noteq> joinAlias (currentTJ e q) \<longrightarrow>
              tablesSQL e q [r # f # rest, r # g # rest'] =
                Inr (sqlString e (currentTJ e q) @ sqlString e j)))) \<and>
   (generateTableJoins e q xs = Inr js \<longrightarrow>
      (\<exists>new. js = currentTJ e q # new \<and> length new \<le> length xs - 1 \<and> list_all joined new \<and>
             map otherField new = take (length new) xs)) \<and>
   (map (generateTableJoins e q) ps = map Inr jss \<longrightarrow>
      tablesSQL e q ps = Inr (concat (map (sqlString e) (firstPerAlias (concat jss)))) \<and>
      distinct (map joinAlias (firstPerAlias (concat jss))))"
proof (intro conjI impI)
  assume h: "fieldsGet (modelStore e (rsMi (recordSet q))) r = Some fi \<and> relatedModel fi = Some rm \<and>
    fieldsGet (modelStore e rm) f = Some fj \<and> (relatedModel fj = None \<or> rest = [])"
  define j where "j = TableJoin (quoteTableName (adapter e) (tableName (modelStore e rm))) True (required fi) ''id''
            (Some (currentTJ e q)) r
            (quoteTableName (adapter e)
               (tableName (modelStore e (rsMi (recordSet q))) @ sqlSep e @ tableName (modelStore e rm)))"
  from h have p1: "generateTableJoins e q (r # f # rest) = Inr [currentTJ e q, j]"
    unfolding j_def by (intro one_relation_crossed) auto
  have shared: "tablesSQL e q [r # f # rest, r # g # rest'] =
                Inr (sqlString e (currentTJ e q) @ sqlString e j)"
    if h2: "fieldsGet (modelStore e rm) g = Some fk \<and> (relatedModel fk = None \<or> rest' = []) \<and>
            joinAlias j \<noteq> joinAlias (currentTJ e q)"
  proof -
    from h h2 have p2: "generateTableJoins e q (r # g # rest') = Inr [currentTJ e q, j]"
      unfolding j_def by (intro one_relation_crossed) auto
    have "map (generateTableJoins e q) [r # f # rest, r # g # rest'] =
          map Inr [[currentTJ e q, j], [currentTJ e q, j]]"
      using p1 p2 by simp
    from tablesSQL_firstPerAlias[OF this] h2 show ?thesis by auto
  qed
  show "\<exists>j. generateTableJoins e q (r # f # rest) = Inr [currentTJ e q, j] \<and>
           \<not> joined (currentTJ e q) \<and> joined j \<and> innerJoin j = required fi \<and>
           otherField j = r \<and> otherTable j = Some (currentTJ e q) \<and>
           joinTableName j = quoteTableName (adapter e) (tableName (modelStore e rm)) \<and>
           joinAlias j = quoteTableName (adapter e)
             (tableName (modelStore e (rsMi (recordSet q))) @ sqlSep e @ tableName (modelStore e rm)) \<and>
           (fieldsGet (modelStore e rm) g = Some fk \<and> (relatedModel fk = None \<or> rest' = []) \<and>
            joinAlias j \<noteq> joinAlias (currentTJ e q) \<longrightarrow>
              tablesSQL e q [r # f # rest, r # g # rest'] =
                Inr (sqlString e (currentTJ e q) @ sqlString e j))"
  proof (intro exI[of _ j] conjI impI)
    show "\<not> joined (currentTJ e q)" by (simp add: currentTJ_def Let_def)
  qed (use p1 shared in \<open>simp_all add: j_def\<close>)
next
  assume "generateTableJoins e q xs = Inr js"
  from generateTableJoins_shape[OF this]
  show "\<exists>new. js = currentTJ e q # new \<and> length new \<le> length xs - 1 \<and> list_all joined new \<and>
             map otherField new = take (length new) xs" by blast
next
  assume "map (generateTableJoins e q) ps = map Inr jss"
  then show "tablesSQL e q ps = Inr (concat (map (sqlString e) (firstPerAlias (concat jss))))"
    by (rule tablesSQL_firstPerAlias)
next
  show "distinct (map joinAlias (firstPerAlias (concat jss)))" by (rule firstPerAlias_distinct)
qed

theorem join_per_relation_witness:
  "generateTableJoins exEnv exQuery [''dept_id'', ''name''] =
     Inr [currentTJ exEnv exQuery,
          TableJoin (CHR 0x22 # ''dept'' @ [CHR 0x22]) True True ''id'' (Some (currentTJ exEnv exQuery))
            ''dept_id'' (CHR 0x22 # ''tbl__dept'' @ [CHR 0x22])] \<and>
   generateTableJoins exEnv exQuery [''mentor_id'', ''name''] =
     Inr [currentTJ exEnv exQuery,
          TableJoin (CHR 0x22 # ''tbl'' @ [CHR 0x22]) True False ''id'' (Some (currentTJ exEnv exQuery))
            ''mentor_id'' (CHR 0x22 # ''tbl__tbl'' @ [CHR 0x22])] \<and>
   generateTableJoins exEnv exQuery [''dept_id''] = Inr [currentTJ exEnv exQuery] \<and>
   tablesSQL exEnv exQuery [[''dept_id'', ''name''], [''dept_id'', ''code'']] =
     Inr (exSqlString (currentTJ exEnv exQuery) @
          exSqlString (TableJoin (CHR 0x22 # ''dept'' @ [CHR 0x22]) True True ''id''
            (Some (currentTJ exEnv exQuery)) ''dept_id'' (CHR 0x22 # ''tbl__dept'' @ [CHR 0x22])))"
proof -
  have root: "joinAlias (currentTJ exEnv exQuery) = CHR 0x22 # ''tbl'' @ [CHR 0x22]"
    by (simp add: currentTJ_def Let_def exEnv_catalog)
  define fi where "fi = \<lparr>json = ''dept_id'', relatedModel = Some 1, required = True\<rparr>"
  define fj where "fj = \<lparr>json = ''name'', relatedModel = None, required = False\<rparr>"
  define fk where "fk = \<lparr>json = ''code'', relatedModel = None, required = False\<rparr>"
  have hyp: "fieldsGet (modelStore exEnv (rsMi (recordSet exQuery))) ''dept_id'' = Some fi \<and>
      relatedModel fi = Some (Suc 0) \<and> fieldsGet (modelStore exEnv (Suc 0)) ''name'' = Some fj \<and>
      (relatedModel fj = None \<or> ([]::string list) = [])"
    by (simp add: exEnv_catalog fi_def fj_def)
  note T = join_per_relation[where e = exEnv and q = exQuery and r = "''dept_id''" and f = "''name''"
      and rest = "[]" and g = "''code''" and rest' = "[]" and rm = "Suc 0"
      and fi = fi and fj = fj and fk = fk, THEN conjunct1, THEN mp, OF hyp]
  then obtain j where j0: "generateTableJoins exEnv exQuery [''dept_id'', ''name''] = Inr [currentTJ exEnv exQuery, j]"
    "joined j" "innerJoin j = required fi" "otherField j = ''dept_id''"
    "otherTable j = Some (currentTJ exEnv exQuery)"
    "joinTableName j = quoteTableName (adapter exEnv) (tableName (modelStore exEnv (Suc 0)))"
    "joinAlias j = quoteTableName (adapter exEnv)
             (tableName (modelStore exEnv (rsMi (recordSet exQuery))) @ sqlSep exEnv @
              tableName (modelStore exEnv (Suc 0)))"
    "fieldsGet (modelStore exEnv (Suc 0)) ''code'' = Some fk \<and> (relatedModel fk = None \<or> ([]::string list) = []) \<and>
            joinAlias j \<noteq> joinAlias (currentTJ exEnv exQuery) \<longrightarrow>
              tablesSQL exEnv exQuery [[''dept_id'', ''name''], [''dept_id'', ''code'']] =
                Inr (sqlString exEnv (currentTJ exEnv exQuery) @ sqlString exEnv j)"
    by blast
  have j: "generateTableJoins exEnv exQuery [''dept_id'', ''name''] = Inr [currentTJ exEnv exQuery, j]"
    "joined j" "innerJoin j" "otherField j = ''dept_id''" "otherTable j = Some (currentTJ exEnv exQuery)"
    "joinTableName j = CHR 0x22 # ''dept'' @ [CHR 0x22]"
    "joinAlias j = CHR 0x22 # ''tbl__dept'' @ [CHR 0x22]"
    using j0(1-7) by (simp_all add: exEnv_catalog fi_def)
  have j8: "tablesSQL exEnv exQuery [[''dept_id'', ''name''], [''dept_id'', ''code'']] =
         Inr (exSqlString (currentTJ exEnv exQuery) @ exSqlString j)"
    using j0(8) j(7) root by (simp add: exEnv_catalog fk_def)
  have jeq: "j = TableJoin (CHR 0x22 # ''dept'' @ [CHR 0x22]) True True ''id''
            (Some (currentTJ exEnv exQuery)) ''dept_id'' (CHR 0x22 # ''tbl__dept'' @ [CHR 0x22])"
    using j(1) by (auto simp: generateTableJoins_def Let_def exEnv_catalog)
  have a: "generateTableJoins exEnv exQuery [''dept_id'', ''name''] =
     Inr [currentTJ exEnv exQuery,
          TableJoin (CHR 0x22 # ''dept'' @ [CHR 0x22]) True True ''id'' (Some (currentTJ exEnv exQuery))
            ''dept_id'' (CHR 0x22 # ''tbl__dept'' @ [CHR 0x22])]"
    using j(1) jeq by simp
  have d: "tablesSQL exEnv exQuery [[''dept_id'', ''name''], [''dept_id'', ''code'']] =
     Inr (exSqlString (currentTJ exEnv exQuery) @
          exSqlString (TableJoin (CHR 0x22 # ''dept'' @ [CHR 0x22]) True True ''id''
            (Some (currentTJ exEnv exQuery)) ''dept_id'' (CHR 0x22 # ''tbl__dept'' @ [CHR 0x22])))"
    using j8 jeq by simp
  have b: "generateTableJoins exEnv exQuery [''mentor_id'', ''name''] =
     Inr [currentTJ exEnv exQuery,
          TableJoin (CHR 0x22 # ''tbl'' @ [CHR 0x22]) True False ''id'' (Some (currentTJ exEnv exQuery))
            ''mentor_id'' (CHR 0x22 # ''tbl__tbl'' @ [CHR 0x22])]"
    by (simp add: generateTableJoins_def Let_def exEnv_catalog)
  have c: "generateTableJoins exEnv exQuery [''dept_id''] = Inr [currentTJ exEnv exQuery]"
    by (simp add: generateTableJoins_def Let_def exEnv_catalog)
  show ?thesis using a b c d by blast
qed

section \<open>The WHERE clause\<close>

lemma leaf_clause:
  assumes "jsonizeExpr e (rsMi (recordSet q)) xs = Inr jx"
    and "joinedFieldExpression e q jx [] = Inr fld"
    and "operatorSQL (adapter e) opr a = (opSql, a')"
  shows "condValueSQLClause e q (CondValue xs opr a c isN isO False) first =
     Inr ((if isO \<and> \<not> (length first > 0 \<and> first ! 0) then ''OR ''
           else if \<not> (length first > 0 \<and> first ! 0) then ''AND '' else []) @
          (if isN then ''NOT '' else []) @ fld @ '' '' @ opSql @ '' '', [a'])"
  using assms by (simp add: Let_def)

text \<open>
  C2. Let the condition of a query be a sub-condition node holding the leaves
  \<open>A = 1\<close> and \<open>B = 2\<close>, the second joined by OR, followed by the leaf
  \<open>C = 3\<close> joined by AND NOT; let the three field paths resolve to the field
  expressions \<open>fa\<close>, \<open>fb\<close>, \<open>fc\<close>, and let the adapter write equality as
  \<open>= ?\<close>. Then the compiled condition is \<open>(fa = ? OR fb = ? ) AND NOT fc = ? \<close>,
  the WHERE clause is that text after \<open>WHERE \<close>, the arguments are 1, 2, 3 in this
  order, and without blanks the condition reads \<open>(fa=?ORfb=?)ANDNOTfc=?\<close>. The
  combinator tags of the nodes in first position (\<open>o0\<close>, \<open>o1\<close>) have no effect.
\<close>

theorem where_clause_of_example:
  assumes "jsonizeExpr e (rsMi (recordSet q)) A = Inr ja"
    and "joinedFieldExpression e q ja [] = Inr fa"
    and "jsonizeExpr e (rsMi (recordSet q)) B = Inr jb"
    and "joinedFieldExpression e q jb [] = Inr fb"
    and "jsonizeExpr e (rsMi (recordSet q)) C = Inr jc"
    and "joinedFieldExpression e q jc [] = Inr fc"
    and "\<forall>v. operatorSQL (adapter e) ''='' v = (''= ?'', v)"
    and "qCond q = Condition
          [CondValue xs0 op0 a0
             (Condition [CondValue A ''='' (IntValue 1) c1 False o1 False,
                         CondValue B ''='' (IntValue 2) c2 False True False])
             False o0 True,
           CondValue C ''='' (IntValue 3) c3 True False False]"
  shows "conditionSQLClause e q (qCond q) =
           Inr (''('' @ fa @ '' = ? OR '' @ fb @ '' = ? ) AND NOT '' @ fc @ '' = ? '',
                [IntValue 1, IntValue 2, IntValue 3]) \<and>
         sqlWhereClause e q =
           Inr (''WHERE ('' @ fa @ '' = ? OR '' @ fb @ '' = ? ) AND NOT '' @ fc @ '' = ? '',
                [IntValue 1, IntValue 2, IntValue 3]) \<and>
         stripSpaces (''('' @ fa @ '' = ? OR '' @ fb @ '' = ? ) AND NOT '' @ fc @ '' = ? '') =
           ''('' @ stripSpaces fa @ ''=?OR'' @ stripSpaces fb @ ''=?)ANDNOT'' @ stripSpaces fc @ ''=?''"
proof -
  have op: "\<And>v. operatorSQL (adapter e) ''='' v = (''= ?'', v)" using assms(7) by simp
  have la: "condValueSQLClause e q (CondValue A ''='' (IntValue 1) c1 False o1 False) [True] =
      Inr (fa @ '' = ? '', [IntValue 1])"
    using leaf_clause[OF assms(1) assms(2) op, where c = c1 and isN = False and isO = o1 and first = "[True]"] by simp
  have lb: "condValueSQLClause e q (CondValue B ''='' (IntValue 2) c2 False True False) [False] =
      Inr (''OR '' @ fb @ '' = ? '', [IntValue 2])"
    using leaf_clause[OF assms(3) assms(4) op, where c = c2 and isN = False and isO = True and first = "[False]"] by simp
  have lc: "condValueSQLClause e q (CondValue C ''='' (IntValue 3) c3 True False False) [False] =
      Inr (''AND NOT '' @ fc @ '' = ? '', [IntValue 3])"
    using leaf_clause[OF assms(5) assms(6) op, where c = c3 and isN = True and isO = False and first = "[False]"] by simp
  have sub: "conditionSQLClause e q
      (Condition [CondValue A ''='' (IntValue 1) c1 False o1 False,
                  CondValue B ''='' (IntValue 2) c2 False True False]) =
      Inr (fa @ '' = ? OR '' @ fb @ '' = ? '', [IntValue 1, IntValue 2])"
    by (simp add: IsEmpty_def la lb Extend_def del: condValueSQLClause.simps)
  have node: "condValueSQLClause e q (CondValue xs0 op0 a0
             (Condition [CondValue A ''='' (IntValue 1) c1 False o1 False,
                         CondValue B ''='' (IntValue 2) c2 False True False])
             False o0 True) [True] =
      Inr (''('' @ fa @ '' = ? OR '' @ fb @ '' = ? ) '', [IntValue 1, IntValue 2])"
    by (simp add: sub Extend_def Let_def del: conditionSQLClause.simps)
  have whole: "conditionSQLClause e q (qCond q) =
           Inr (''('' @ fa @ '' = ? OR '' @ fb @ '' = ? ) AND NOT '' @ fc @ '' = ? '',
                [IntValue 1, IntValue 2, IntValue 3])"
    unfolding assms(8)
    by (simp add: IsEmpty_def node lc Extend_def del: condValueSQLClause.simps)
  have wh: "sqlWhereClause e q =
           Inr (''WHERE ('' @ fa @ '' = ? OR '' @ fb @ '' = ? ) AND NOT '' @ fc @ '' = ? '',
                [IntValue 1, IntValue 2, IntValue 3])"
    by (simp add: sqlWhereClause_def whole sqlxIn_def)
  have st: "stripSpaces (''('' @ fa @ '' = ? OR '' @ fb @ '' = ? ) AND NOT '' @ fc @ '' = ? '') =
           ''('' @ stripSpaces fa @ ''=?OR'' @ stripSpaces fb @ ''=?)ANDNOT'' @ stripSpaces fc @ ''=?''"
    by (simp add: stripSpaces_def)
  show ?thesis using whole wh st by blast
qed

theorem where_clause_of_example_witness:
  "sqlWhereClause exEnv (exQuery\<lparr>qCond := exCondition\<rparr>) =
     Inr (''WHERE ('' @ CHR 0x22 # ''tbl'' @ CHR 0x22 # ''.name = ? OR '' @
          CHR 0x22 # ''tbl'' @ CHR 0x22 # ''.age = ? ) AND NOT '' @
          CHR 0x22 # ''tbl'' @ CHR 0x22 # ''.dept_id = ? '',
          [IntValue 1, IntValue 2, IntValue 3])"
proof -
  let ?q = "exQuery\<lparr>qCond := exCondition\<rparr>"
  have mi: "rsMi (recordSet ?q) = 0" by (simp add: exEnv_catalog)
  have je: "\<And>xs wa. joinedFieldExpression exEnv ?q xs wa = joinedFieldExpression exEnv exQuery xs wa"
    by (simp add: joinedFieldExpression_def generateTableJoins_def currentTJ_def)
  have opr: "\<forall>v. operatorSQL (adapter exEnv) ''='' v = (''= ?'', v)" by (simp add: exEnv_catalog)
  have c: "qCond ?q = Condition
     [CondValue [] [] NilValue
        (Condition [CondValue [''name''] ''='' (IntValue 1) NewCondition False False False,
                    CondValue [''age''] ''='' (IntValue 2) NewCondition False True False])
        False False True,
      CondValue [''dept_id''] ''='' (IntValue 3) NewCondition True False False]"
    by (simp add: exCondition_def)
  have ja: "jsonizeExpr exEnv (rsMi (recordSet ?q)) [''name''] = Inr [''name'']"
    and jb: "jsonizeExpr exEnv (rsMi (recordSet ?q)) [''age''] = Inr [''age'']"
    and jc: "jsonizeExpr exEnv (rsMi (recordSet ?q)) [''dept_id''] = Inr [''dept_id'']"
    by (simp_all add: exEnv_catalog)
  have fa: "joinedFieldExpression exEnv ?q [''name''] [] = Inr (CHR 0x22 # ''tbl'' @ CHR 0x22 # ''.name'')"
    and fb: "joinedFieldExpression exEnv ?q [''age''] [] = Inr (CHR 0x22 # ''tbl'' @ CHR 0x22 # ''.age'')"
    and fc: "joinedFieldExpression exEnv ?q [''dept_id''] [] = Inr (CHR 0x22 # ''tbl'' @ CHR 0x22 # ''.dept_id'')"
    by (simp_all only: je exEnv_field_exprs)
  from where_clause_of_example[OF ja fa jb fb jc fc opr c]
  show ?thesis by simp
qed

section \<open>A node in first position\<close>

lemma no_prefix_before_dot:
  assumes "\<not> prefix p al" and "CHR ''.'' \<notin> set p"
  shows "\<not> prefix p (al @ CHR ''.'' # rest)"
proof
  assume "prefix p (al @ CHR ''.'' # rest)"
  with assms(1) obtain us where us: "p = al @ us" "prefix us (CHR ''.'' # rest)"
    by (auto simp: prefix_append)
  show False
  proof (cases us)
    case Nil
    with us(1) assms(1) show False by simp
  next
    case (Cons u us')
    with us(2) have "u = CHR ''.''" by simp
    with Cons us(1) assms(2) show False by simp
  qed
qed

lemma joinedFieldExpression_shape:
  assumes "joinedFieldExpression e q xs wa = Inr fld"
  shows "\<exists>t rest. fld = quoteTableName (adapter e) t @ CHR ''.'' # rest"
proof -
  from assms obtain js where js: "generateTableJoins e q xs = Inr js"
    by (auto simp: joinedFieldExpression_def split: sum.splits)
  from generateTableJoins_shape[OF js] obtain new where new: "js = currentTJ e q # new"
    "list_all (\<lambda>j. \<exists>t. joinAlias j = quoteTableName (adapter e) t) js" by blast
  have "js \<noteq> []" using new(1) by simp
  then have "js ! (length js - 1) \<in> set js" by (intro nth_mem) (cases js, auto)
  with new(2) obtain t where t: "joinAlias (js ! (length js - 1)) = quoteTableName (adapter e) t"
    by (auto simp: list_all_iff)
  from assms js t show ?thesis
    by (auto simp: joinedFieldExpression_def Let_def split: if_splits)
qed

text \<open>
  C10, as amended. In first position the outcome of \<open>condValueSQLClause\<close>, text and
  arguments or panic, is the same whether \<open>isOr\<close> is true or false. The outcome in
  a later position is the outcome in first position with \<open>OR \<close> or \<open>AND \<close> put
  before the text, so no connective leads the text in first position; where the
  adapter's quoted names do not start with \<open>AND \<close> or \<open>OR \<close>, the text does not
  either. The function panics in first position exactly when compiling the nested
  condition (of a sub-condition node) or resolving the field path (of a leaf) panics.
\<close>

theorem first_position_ignores_isOr:
  "condValueSQLClause e q (CondValue xs opr a c isN True isC) [True] =
     condValueSQLClause e q (CondValue xs opr a c isN False isC) [True] \<and>
   condValueSQLClause e q (CondValue xs opr a c isN isO isC) [False] =
     (case condValueSQLClause e q (CondValue xs opr a c isN isO isC) [True] of
        Inl err \<Rightarrow> Inl err
      | Inr (sql, args) \<Rightarrow> Inr ((if isO then ''OR '' else ''AND '') @ sql, args)) \<and>
   ((condValueSQLClause e q (CondValue xs opr a c isN isO isC) [True] = Inl err) =
      (if isC then conditionSQLClause e q c = Inl err
       else (jsonizeExpr e (rsMi (recordSet q)) xs = Inl err \<or>
             (\<exists>jx. jsonizeExpr e (rsMi (recordSet q)) xs = Inr jx \<and>
                   joinedFieldExpression e q jx [] = Inl err)))) \<and>
   ((\<forall>t. \<not> prefix ''AND '' (quoteTableName (adapter e) t) \<and>
         \<not> prefix ''OR '' (quoteTableName (adapter e) t)) \<and>
    condValueSQLClause e q (CondValue xs opr a c isN isO isC) [True] = Inr (sql, args) \<longrightarrow>
      \<not> prefix ''AND '' sql \<and> \<not> prefix ''OR '' sql)"
proof (intro conjI impI)
  show "condValueSQLClause e q (CondValue xs opr a c isN True isC) [True] =
     condValueSQLClause e q (CondValue xs opr a c isN False isC) [True]"
    by (simp add: Let_def)
next
  show "condValueSQLClause e q (CondValue xs opr a c isN isO isC) [False] =
     (case condValueSQLClause e q (CondValue xs opr a c isN isO isC) [True] of
        Inl err \<Rightarrow> Inl err
      | Inr (sql, args) \<Rightarrow> Inr ((if isO then ''OR '' else ''AND '') @ sql, args))"
    by (simp add: Let_def split: sum.splits prod.splits)
next
  show "(condValueSQLClause e q (CondValue xs opr a c isN isO isC) [True] = Inl err) =
      (if isC then conditionSQLClause e q c = Inl err
       else (jsonizeExpr e (rsMi (recordSet q)) xs = Inl err \<or>
             (\<exists>jx. jsonizeExpr e (rsMi (recordSet q)) xs = Inr jx \<and>
                   joinedFieldExpression e q jx [] = Inl err)))"
    by (auto simp: Let_def split: sum.splits prod.splits)
next
  assume h: "(\<forall>t. \<not> prefix ''AND '' (quoteTableName (adapter e) t) \<and>
         \<not> prefix ''OR '' (quoteTableName (adapter e) t)) \<and>
    condValueSQLClause e q (CondValue xs opr a c isN isO isC) [True] = Inr (sql, args)"
  have fldp: "\<not> prefix ''AND '' (fld @ s) \<and> \<not> prefix ''OR '' (fld @ s)"
    if "joinedFieldExpression e q jx [] = Inr fld" for jx fld s
  proof -
    from joinedFieldExpression_shape[OF that] obtain t rest where
      fld: "fld = quoteTableName (adapter e) t @ CHR ''.'' # rest" by blast
    from h have "\<not> prefix ''AND '' (quoteTableName (adapter e) t)"
      "\<not> prefix ''OR '' (quoteTableName (adapter e) t)" by auto
    then have "\<not> prefix ''AND '' (quoteTableName (adapter e) t @ CHR ''.'' # (rest @ s))"
      "\<not> prefix ''OR '' (quoteTableName (adapter e) t @ CHR ''.'' # (rest @ s))"
      by (intro no_prefix_before_dot; simp)+
    then show ?thesis by (simp add: fld)
  qed
  from h have r: "condValueSQLClause e q (CondValue xs opr a c isN isO isC) [True] = Inr (sql, args)"
    by simp
  show "\<not> prefix ''AND '' sql" "\<not> prefix ''OR '' sql"
    using r fldp by (auto simp: Let_def split: sum.splits prod.splits if_splits)
qed

theorem first_position_ignores_isOr_witness:
  "condValueSQLClause exEnv exQuery
     (CondValue [''name''] ''='' (IntValue 1) NewCondition False True False) [True] =
     Inr (CHR 0x22 # ''tbl'' @ CHR 0x22 # ''.name = ? '', [IntValue 1]) \<and>
   condValueSQLClause exEnv exQuery
     (CondValue [''name''] ''='' (IntValue 1) NewCondition False False False) [True] =
     Inr (CHR 0x22 # ''tbl'' @ CHR 0x22 # ''.name = ? '', [IntValue 1]) \<and>
   condValueSQLClause exEnv exQuery
     (CondValue [''name''] ''='' (IntValue 1) NewCondition False True False) [False] =
     Inr (''OR '' @ CHR 0x22 # ''tbl'' @ CHR 0x22 # ''.name = ? '', [IntValue 1]) \<and>
   \<not> prefix ''AND '' (CHR 0x22 # ''tbl'' @ CHR 0x22 # ''.name = ? '') \<and>
   \<not> prefix ''OR '' (CHR 0x22 # ''tbl'' @ CHR 0x22 # ''.name = ? '')"
proof -
  note T = first_position_ignores_isOr[where e = exEnv and q = exQuery and xs = "[''name'']"
      and opr = "''=''" and a = "IntValue 1" and c = NewCondition and isN = False and isC = False
      and isO = True and sql = "CHR 0x22 # ''tbl'' @ CHR 0x22 # ''.name = ? ''"
      and args = "[IntValue 1]"]
  have f: "condValueSQLClause exEnv exQuery
     (CondValue [''name''] ''='' (IntValue 1) NewCondition False False False) [True] =
     Inr (CHR 0x22 # ''tbl'' @ CHR 0x22 # ''.name = ? '', [IntValue 1])"
    by (simp add: Let_def exEnv_catalog exEnv_field_exprs)
  from T f have t: "condValueSQLClause exEnv exQuery
     (CondValue [''name''] ''='' (IntValue 1) NewCondition False True False) [True] =
     Inr (CHR 0x22 # ''tbl'' @ CHR 0x22 # ''.name = ? '', [IntValue 1])"
    by (simp only:)
  from T t have nf: "condValueSQLClause exEnv exQuery
     (CondValue [''name''] ''='' (IntValue 1) NewCondition False True False) [False] =
     Inr (''OR '' @ CHR 0x22 # ''tbl'' @ CHR 0x22 # ''.name = ? '', [IntValue 1])"
    by (simp del: condValueSQLClause.simps)
  have quoting: "\<forall>t. \<not> prefix ''AND '' (quoteTableName (adapter exEnv) t) \<and>
         \<not> prefix ''OR '' (quoteTableName (adapter exEnv) t)"
    by (simp add: exEnv_catalog)
  from T quoting t have np: "\<not> prefix ''AND '' (CHR 0x22 # ''tbl'' @ CHR 0x22 # ''.name = ? '') \<and>
      \<not> prefix ''OR '' (CHR 0x22 # ''tbl'' @ CHR 0x22 # ''.name = ? '')"
    by blast
  show ?thesis using f t nf np by blast
qed

text \<open>
  C10, as stated, fails: a leaf on a field the model does not have panics in first
  position.
\<close>

theorem first_position_can_panic:
  "condValueSQLClause exEnv exQuery
     (CondValue [''nope''] ''='' (IntValue 1) NewCondition False True False) [True] =
   Inl UnparsableExpression"
  by (simp add: Let_def joinedFieldExpression_def generateTableJoins_def exEnv_catalog
      exEnv_def exQuery_def newQuery_def fieldsGet_def tblModel_def)

end
